theory Spec2Isabelle
  imports Main
begin

section \<open>Data model (authentication/models.py)\<close>

text \<open>
  Instants are whole seconds on the server clock (\<open>timezone.now()\<close>); a
  \<open>timedelta(minutes=10)\<close> is 600. A \<open>User\<close> row keeps the columns the OTP
  subsystem reads or writes; an \<open>OTPCode\<close> row keeps all of its columns, the
  foreign key as the owner's primary key.
\<close>

record user =
  user_pk :: nat
  user_email :: string
  user_phone :: string
  is_verified :: bool

record otp_code =
  otp_pk :: nat
  otp_user :: nat
  code :: string
  is_used :: bool
  created_at :: int
  expires_at :: int

datatype cval = CBool bool | CInt int

text \<open>
  The persistent tables and the shared cache. \<open>otp_next_pk\<close> is the
  auto-increment counter of the \<open>OTPCode\<close> table. A cache entry is a value with
  the instant at which it expires.
\<close>

record store =
  otp_rows :: "otp_code list"
  otp_next_pk :: nat
  user_rows :: "user list"
  cache :: "string \<Rightarrow> (cval \<times> int) option"

definition minutes :: "int \<Rightarrow> int" where
  "minutes n = 60 * n"

section \<open>Query helpers\<close>

text \<open>
  \<open>QuerySet.first()\<close> on a queryset without ordering returns the matching row
  with the least primary key, or \<open>None\<close>.
\<close>

fun first_by :: "('a \<Rightarrow> nat) \<Rightarrow> 'a list \<Rightarrow> 'a option" where
  "first_by pk [] = None"
| "first_by pk (r # rs) =
     (case first_by pk rs of
        None \<Rightarrow> Some r
      | Some m \<Rightarrow> if pk r \<le> pk m then Some r else Some m)"

text \<open>The filter \<open>user=user, is_used=False, expires_at__gt=t\<close>.\<close>

definition live :: "int \<Rightarrow> nat \<Rightarrow> otp_code \<Rightarrow> bool" where
  "live t uid r \<longleftrightarrow> otp_user r = uid \<and> \<not> is_used r \<and> t < expires_at r"

text \<open>The filter \<open>user=user, code=code, is_used=False, expires_at__gt=t\<close>.\<close>

definition matching :: "int \<Rightarrow> nat \<Rightarrow> string \<Rightarrow> otp_code \<Rightarrow> bool" where
  "matching t uid c r \<longleftrightarrow> otp_user r = uid \<and> code r = c \<and> \<not> is_used r \<and> t < expires_at r"

text \<open>
  \<open>OTPCode.objects.filter(user=user, is_used=False, expires_at__gt=t1).update(expires_at=t2)\<close>:
  one UPDATE statement; \<open>t1\<close> and \<open>t2\<close> are the two clock readings of lines 34 and 35.
\<close>

definition update_live :: "int \<Rightarrow> int \<Rightarrow> nat \<Rightarrow> otp_code list \<Rightarrow> otp_code list" where
  "update_live t1 t2 uid rows =
     map (\<lambda>r. if live t1 uid r then r\<lparr>expires_at := t2\<rparr> else r) rows"

text \<open>\<open>otp.delete()\<close>: DELETE of the row with the instance's primary key.\<close>

definition delete_row :: "otp_code \<Rightarrow> otp_code list \<Rightarrow> otp_code list" where
  "delete_row otp rows = filter (\<lambda>r. otp_pk r \<noteq> otp_pk otp) rows"

text \<open>
  \<open>otp.save()\<close> on an instance read from the table: UPDATE of every column of the
  row with the instance's primary key.
\<close>

definition save_row :: "otp_code \<Rightarrow> otp_code list \<Rightarrow> otp_code list" where
  "save_row otp rows = map (\<lambda>r. if otp_pk r = otp_pk otp then otp else r) rows"

section \<open>OTPManager (authentication/utils/otp.py)\<close>

subsection \<open>generate_otp\<close>

text \<open>
  \<open>''.join([str(random.randint(0, 9)) for _ in range(6)])\<close>; \<open>rnd i\<close> is the
  result of the \<open>i\<close>-th call of \<open>random.randint(0, 9)\<close>.
\<close>

definition str_digit :: "nat \<Rightarrow> char" where
  "str_digit n = char_of (48 + n)"

definition generate_otp :: "(nat \<Rightarrow> nat) \<Rightarrow> string" where
  "generate_otp rnd = map (\<lambda>i. str_digit (rnd i)) [0..<6]"

subsection \<open>send_otp\<close>

text \<open>
  What the outside world does when \<open>send_otp\<close> runs: whether constructing the
  Twilio \<open>Client\<close> raises, whether \<open>client.messages.create\<close> to a number raises,
  whether \<open>send_mail\<close> to an address raises. The function returns its boolean
  with the list of delivery calls it made, in order.
\<close>

record gateway =
  client_raises :: bool
  sms_raises :: "string \<Rightarrow> bool"
  mail_raises :: "string \<Rightarrow> bool"

datatype attempt = Sms string string | Mail string string

definition send_otp :: "gateway \<Rightarrow> user \<Rightarrow> string \<Rightarrow> bool \<times> attempt list" where
  "send_otp g u c =
     (if client_raises g then (False, [])
      else if \<not> sms_raises g (user_phone u) then (True, [Sms (user_phone u) c])
      else if user_email u \<noteq> [] then
        (if mail_raises g (user_email u)
         then (False, [Sms (user_phone u) c, Mail (user_email u) c])
         else (True, [Sms (user_phone u) c, Mail (user_email u) c]))
      else (False, [Sms (user_phone u) c]))"

subsection \<open>create_otp\<close>

text \<open>
  The environment of one \<open>create_otp\<close> call: the four clock readings (the filter
  of line 34, the update value of line 35, line 39, and \<open>auto_now_add\<close> at the
  INSERT), the random draws, whether each database statement raises, and the
  delivery gateway. A statement that raises changes nothing.
\<close>

record issue_env =
  now_filter :: int
  now_update :: int
  now_expiry :: int
  now_created :: int
  randoms :: "nat \<Rightarrow> nat"
  update_raises :: bool
  create_raises :: bool
  delete_raises :: bool
  gateway :: gateway

definition new_otp :: "issue_env \<Rightarrow> user \<Rightarrow> store \<Rightarrow> otp_code" where
  "new_otp e u s =
     \<lparr>otp_pk = otp_next_pk s, otp_user = user_pk u, code = generate_otp (randoms e),
      is_used = False, created_at = now_created e,
      expires_at = now_expiry e + minutes 10\<rparr>"

definition create_otp :: "issue_env \<Rightarrow> user \<Rightarrow> store \<Rightarrow> otp_code option \<times> store" where
  "create_otp e u s =
     (if update_raises e then (None, s)
      else
        let s1 = s\<lparr>otp_rows := update_live (now_filter e) (now_update e) (user_pk u) (otp_rows s)\<rparr>
        in if create_raises e then (None, s1)
           else
             let otp = new_otp e u s1;
                 s2 = s1\<lparr>otp_rows := otp_rows s1 @ [otp], otp_next_pk := Suc (otp_next_pk s1)\<rparr>
             in if fst (send_otp (gateway e) u (code otp)) then (Some otp, s2)
                else if delete_raises e then (None, s2)
                else (None, s2\<lparr>otp_rows := delete_row otp (otp_rows s2)\<rparr>))"

subsection \<open>verify_otp\<close>

text \<open>
  The two database statements of \<open>verify_otp\<close>: the SELECT of lines 63-68 and the
  UPDATE behind \<open>otp.save()\<close> of line 75, after \<open>otp.is_used = True\<close>.
\<close>

definition verify_lookup :: "int \<Rightarrow> user \<Rightarrow> string \<Rightarrow> store \<Rightarrow> otp_code option" where
  "verify_lookup t u c s = first_by otp_pk (filter (matching t (user_pk u) c) (otp_rows s))"

definition verify_commit :: "otp_code \<Rightarrow> store \<Rightarrow> store" where
  "verify_commit otp s = s\<lparr>otp_rows := save_row (otp\<lparr>is_used := True\<rparr>) (otp_rows s)\<rparr>"

record verify_env =
  now_lookup :: int
  lookup_raises :: bool
  save_raises :: bool

definition verify_otp :: "verify_env \<Rightarrow> user \<Rightarrow> string \<Rightarrow> store \<Rightarrow> bool \<times> store" where
  "verify_otp e u c s =
     (if lookup_raises e then (False, s)
      else case verify_lookup (now_lookup e) u c s of
             None \<Rightarrow> (False, s)
           | Some otp \<Rightarrow>
               if save_raises e then (False, s) else (True, verify_commit otp s))"

section \<open>Serializers (authentication/serializers.py)\<close>

text \<open>
  \<open>request.data\<close> and \<open>validated_data\<close> are dictionaries from field names to
  string values. Characters are the code points below 256. \<open>ok_email\<close> is the
  framework's e-mail address validator.
\<close>

type_synonym data = "string \<Rightarrow> string option"

datatype error = ValidationError "(string \<times> string) list"

text \<open>Python truthiness of the result of \<open>dict.get\<close>: \<open>None\<close> and \<open>''\<close> are false.\<close>

definition py_truthy :: "string option \<Rightarrow> bool" where
  "py_truthy v = (case v of None \<Rightarrow> False | Some s \<Rightarrow> s \<noteq> [])"

text \<open>\<open>str.isdigit\<close>: non-empty, every character a digit; below 256 these are
  \<open>0\<close> to \<open>9\<close> and the superscripts two, three and one.\<close>

definition isdigit_char :: "char \<Rightarrow> bool" where
  "isdigit_char c =
     (let n = (of_char c :: nat) in (48 \<le> n \<and> n \<le> 57) \<or> n = 178 \<or> n = 179 \<or> n = 185)"

definition isdigit :: "string \<Rightarrow> bool" where
  "isdigit s \<longleftrightarrow> s \<noteq> [] \<and> list_all isdigit_char s"

text \<open>\<open>str.strip()\<close>: leading and trailing whitespace removed; below 256 the
  whitespace characters are 9 to 13, 28 to 32, 133 and 160.\<close>

definition isspace_char :: "char \<Rightarrow> bool" where
  "isspace_char c =
     (let n = (of_char c :: nat)
      in (9 \<le> n \<and> n \<le> 13) \<or> (28 \<le> n \<and> n \<le> 32) \<or> n = 133 \<or> n = 160)"

definition strip :: "string \<Rightarrow> string" where
  "strip s = rev (dropWhile isspace_char (rev (dropWhile isspace_char s)))"

text \<open>
  The errors of one declared field: \<open>EmailField(required=...)\<close> and
  \<open>CharField(required=..., min_length=..., max_length=...)\<close>, both with the
  default \<open>trim_whitespace=True\<close>. A missing optional field is skipped; a
  present field may not be blank once trimmed, and the validators see the
  trimmed value.
\<close>

definition email_field :: "(string \<Rightarrow> bool) \<Rightarrow> bool \<Rightarrow> string \<Rightarrow> data \<Rightarrow> (string \<times> string) list" where
  "email_field ok_email required name d =
     (case d name of
        None \<Rightarrow> if required then [(name, ''required'')] else []
      | Some s \<Rightarrow>
          if strip s = [] then [(name, ''blank'')]
          else if ok_email (strip s) then [] else [(name, ''invalid'')])"

definition char_field :: "bool \<Rightarrow> nat option \<Rightarrow> nat option \<Rightarrow> string \<Rightarrow> data \<Rightarrow> (string \<times> string) list" where
  "char_field required min_length max_length name d =
     (case d name of
        None \<Rightarrow> if required then [(name, ''required'')] else []
      | Some s \<Rightarrow>
          if strip s = [] then [(name, ''blank'')]
          else (case max_length of
                  None \<Rightarrow> []
                | Some n \<Rightarrow> if n < length (strip s) then [(name, ''max_length'')] else [])
             @ (case min_length of
                  None \<Rightarrow> []
                | Some n \<Rightarrow> if length (strip s) < n then [(name, ''min_length'')] else []))"

text \<open>\<open>to_internal_value\<close>: the validated data hold the trimmed values of the
  declared fields that are present, and nothing else.\<close>

definition to_internal_value :: "string set \<Rightarrow> data \<Rightarrow> data" where
  "to_internal_value declared d = (\<lambda>k. if k \<in> declared then map_option strip (d k) else None)"

subsection \<open>RequestOTPSerializer\<close>

definition RequestOTPSerializer_validate :: "data \<Rightarrow> error + data" where
  "RequestOTPSerializer_validate attrs =
     (let email = attrs ''email''; phone_number = attrs ''phone_number''
      in if \<not> py_truthy email \<and> \<not> py_truthy phone_number
         then Inl (ValidationError
                [(''non_field_errors'', ''Either email or phone number must be provided'')])
         else Inr attrs)"

definition RequestOTPSerializer_is_valid :: "(string \<Rightarrow> bool) \<Rightarrow> data \<Rightarrow> error + data" where
  "RequestOTPSerializer_is_valid ok_email d =
     (let errors = email_field ok_email False ''email'' d
                 @ char_field False None None ''phone_number'' d
      in if errors \<noteq> [] then Inl (ValidationError errors)
         else RequestOTPSerializer_validate (to_internal_value {''email'', ''phone_number''} d))"

subsection \<open>VerifyOTPSerializer\<close>

definition validate_code :: "string \<Rightarrow> error + string" where
  "validate_code v =
     (if \<not> isdigit v
      then Inl (ValidationError [(''code'', ''OTP code must contain only digits.'')])
      else Inr v)"

text \<open>The declared fields are \<open>email\<close> (required) and \<open>code\<close>; \<open>validate_code\<close>
  runs on the trimmed code when the field's own validators have passed.\<close>

definition code_errors :: "data \<Rightarrow> (string \<times> string) list" where
  "code_errors d =
     (case char_field True (Some 6) (Some 6) ''code'' d of
        [] \<Rightarrow> (case d ''code'' of
                 None \<Rightarrow> []
               | Some v \<Rightarrow> (case validate_code (strip v) of
                             Inl (ValidationError es) \<Rightarrow> es
                           | Inr _ \<Rightarrow> []))
      | es \<Rightarrow> es)"

definition VerifyOTPSerializer_is_valid :: "(string \<Rightarrow> bool) \<Rightarrow> data \<Rightarrow> error + data" where
  "VerifyOTPSerializer_is_valid ok_email d =
     (let errors = email_field ok_email True ''email'' d @ code_errors d
      in if errors \<noteq> [] then Inl (ValidationError errors)
         else Inr (to_internal_value {''email'', ''code''} d))"

section \<open>The cache\<close>

text \<open>
  \<open>cache.get\<close>, \<open>cache.set(key, value, timeout)\<close> and \<open>cache.delete\<close> at an
  instant: an entry is visible strictly before its expiry instant.
\<close>

definition cache_get :: "(string \<Rightarrow> (cval \<times> int) option) \<Rightarrow> int \<Rightarrow> string \<Rightarrow> cval option" where
  "cache_get c t k =
     (case c k of None \<Rightarrow> None | Some (v, expiry) \<Rightarrow> if t < expiry then Some v else None)"

definition cache_set ::
  "(string \<Rightarrow> (cval \<times> int) option) \<Rightarrow> int \<Rightarrow> string \<Rightarrow> cval \<Rightarrow> int \<Rightarrow> (string \<Rightarrow> (cval \<times> int) option)" where
  "cache_set c t k v timeout = c(k \<mapsto> (v, t + timeout))"

definition cache_delete :: "(string \<Rightarrow> (cval \<times> int) option) \<Rightarrow> string \<Rightarrow> (string \<Rightarrow> (cval \<times> int) option)" where
  "cache_delete c k = c(k := None)"

text \<open>Python's view of a cached value as a truth value and as an integer
  (\<open>True\<close> is 1).\<close>

definition cval_truthy :: "cval option \<Rightarrow> bool" where
  "cval_truthy v = (case v of None \<Rightarrow> False | Some (CBool b) \<Rightarrow> b | Some (CInt n) \<Rightarrow> n \<noteq> 0)"

definition cval_int :: "cval \<Rightarrow> int" where
  "cval_int v = (case v of CBool b \<Rightarrow> (if b then 1 else 0) | CInt n \<Rightarrow> n)"

section \<open>Views (authentication/views.py)\<close>

datatype jval = JStr string | JInt int | JBool bool | JObj "(string \<times> jval) list"

record response =
  status :: nat
  body :: "(string \<times> jval) list"

text \<open>Python's \<open>a or b\<close> and \<open>str(x)\<close> on optional strings.\<close>

definition py_or :: "string option \<Rightarrow> string option \<Rightarrow> string option" where
  "py_or a b = (if py_truthy a then a else b)"

definition py_str :: "string option \<Rightarrow> string" where
  "py_str v = (case v of None \<Rightarrow> ''None'' | Some s \<Rightarrow> s)"

text \<open>
  The user lookup shared by both views (lines 98-102 and 151-155).
  \<open>phone_number\<close> is a \<open>PhoneNumberField\<close>: the column holds normalised numbers
  and a lookup value is normalised before it is compared; \<open>to_phone\<close> is that
  normalisation.
\<close>

definition find_user ::
  "(string \<Rightarrow> string) \<Rightarrow> string option \<Rightarrow> string option \<Rightarrow> user list \<Rightarrow> user option" where
  "find_user to_phone email phone_number users =
     (if py_truthy email
      then first_by user_pk (filter (\<lambda>u. Some (user_email u) = email) users)
      else if py_truthy phone_number
      then first_by user_pk
             (filter (\<lambda>u. Some (user_phone u) = map_option to_phone phone_number) users)
      else None)"

definition unexpected_error :: response where
  "unexpected_error =
     \<lparr>status = 500, body = [(''error'', JStr ''An unexpected error occurred.'')]\<rparr>"

subsection \<open>RequestOTPView.post\<close>

record request_env =
  now_cache_get :: int
  now_cache_set :: int
  issuing :: issue_env

definition too_soon :: response where
  "too_soon =
     \<lparr>status = 429,
      body = [(''error'', JStr ''Please wait before requesting another OTP.''),
              (''wait_time'', JStr ''60 seconds'')]\<rparr>"

definition RequestOTPView_post ::
  "(string \<Rightarrow> bool) \<Rightarrow> (string \<Rightarrow> string) \<Rightarrow> request_env \<Rightarrow> data \<Rightarrow> store
     \<Rightarrow> response \<times> store" where
  "RequestOTPView_post ok_email to_phone env d s =
     (case RequestOTPSerializer_is_valid ok_email d of
        Inl _ \<Rightarrow> (unexpected_error, s)
      | Inr validated_data \<Rightarrow>
          let email = validated_data ''email'';
              phone_number = validated_data ''phone_number'';
              identifier = py_str (py_or email phone_number);
              cache_key = ''otp_request_'' @ identifier
          in if cval_truthy (cache_get (cache s) (now_cache_get env) cache_key)
             then (too_soon, s)
             else
               (case find_user to_phone email phone_number (user_rows s) of
                  None \<Rightarrow>
                    (\<lparr>status = 404,
                      body = [(''error'', JStr ''User not found. Please register.'')]\<rparr>, s)
                | Some u \<Rightarrow>
                    (case create_otp (issuing env) u s of
                       (None, s1) \<Rightarrow>
                         (\<lparr>status = 500,
                           body = [(''error'', JStr ''Failed to send OTP. Please try again.'')]\<rparr>,
                          s1)
                     | (Some otp, s1) \<Rightarrow>
                         (\<lparr>status = 200,
                           body = [(''message'', JStr ''OTP sent successfully''),
                                   (''expires_in'', JStr ''10 minutes''),
                                   (''contact'',
                                    JStr (if py_truthy email then py_str email
                                          else py_str phone_number)),
                                   (''delivery_method'',
                                    JStr (if py_truthy email then ''email'' else ''sms''))]\<rparr>,
                          s1\<lparr>cache := cache_set (cache s1) (now_cache_set env) cache_key
                                          (CBool True) 60\<rparr>))))"

subsection \<open>VerifyOTPView.post\<close>

definition max_attempts :: int where
  "max_attempts = 3"

record verify_request_env =
  now_attempts_get :: int
  now_attempts_set :: int
  verifying :: verify_env
  access_token :: string
  refresh_token :: string

definition too_many_attempts :: response where
  "too_many_attempts =
     \<lparr>status = 429,
      body = [(''error'', JStr ''Too many failed attempts. Please request a new OTP.'')]\<rparr>"

text \<open>\<open>user.is_verified = True; user.save()\<close>.\<close>

definition save_verified :: "user \<Rightarrow> user list \<Rightarrow> user list" where
  "save_verified u users =
     map (\<lambda>r. if user_pk r = user_pk u then u\<lparr>is_verified := True\<rparr> else r) users"

definition VerifyOTPView_post ::
  "(string \<Rightarrow> bool) \<Rightarrow> (string \<Rightarrow> string) \<Rightarrow> verify_request_env \<Rightarrow> data \<Rightarrow> store
     \<Rightarrow> response \<times> store" where
  "VerifyOTPView_post ok_email to_phone env d s =
     (case VerifyOTPSerializer_is_valid ok_email d of
        Inl _ \<Rightarrow> (unexpected_error, s)
      | Inr validated_data \<Rightarrow>
          let email = validated_data ''email'';
              phone_number = validated_data ''phone_number'';
              code = py_str (validated_data ''code'');
              identifier = py_str (py_or email phone_number);
              attempt_key = ''otp_attempts_'' @ identifier;
              attempts = (case cache_get (cache s) (now_attempts_get env) attempt_key of
                            None \<Rightarrow> 0
                          | Some v \<Rightarrow> cval_int v)
          in if max_attempts \<le> attempts then (too_many_attempts, s)
             else
               (case find_user to_phone email phone_number (user_rows s) of
                  None \<Rightarrow> (\<lparr>status = 404, body = [(''error'', JStr ''User not found.'')]\<rparr>, s)
                | Some u \<Rightarrow>
                    (case verify_otp (verifying env) u code s of
                       (True, s1) \<Rightarrow>
                         (\<lparr>status = 200,
                           body = [(''message'', JStr ''OTP verified successfully''),
                                   (''is_verified'', JBool True),
                                   (''tokens'', JObj [(''access'', JStr (access_token env)),
                                                      (''refresh'', JStr (refresh_token env))])]\<rparr>,
                          s1\<lparr>user_rows := save_verified u (user_rows s1),
                             cache := cache_delete (cache s1) attempt_key\<rparr>)
                     | (False, s1) \<Rightarrow>
                         (\<lparr>status = 400,
                           body = [(''error'', JStr ''Invalid or expired OTP.''),
                                   (''attempts_left'', JInt (max_attempts - (attempts + 1)))]\<rparr>,
                          s1\<lparr>cache := cache_set (cache s1) (now_attempts_set env) attempt_key
                                          (CInt (attempts + 1)) 300\<rparr>))))"

section \<open>Two requests verifying at once\<close>

text \<open>
  Each request handler runs \<open>verify_otp\<close> on its own; the table is shared. A
  caller is at the start, or holds the instance its SELECT returned, or has
  returned. One step of a caller is one database statement of \<open>verify_otp\<close>.
\<close>

datatype pc = Start | Found otp_code | Done bool

definition verify_step :: "int \<Rightarrow> user \<Rightarrow> string \<Rightarrow> pc \<times> store \<Rightarrow> pc \<times> store" where
  "verify_step t u c ps =
     (case ps of
        (Start, s) \<Rightarrow>
          (case verify_lookup t u c s of
             None \<Rightarrow> (Done False, s)
           | Some otp \<Rightarrow> (Found otp, s))
      | (Found otp, s) \<Rightarrow> (Done True, verify_commit otp s)
      | (Done b, s) \<Rightarrow> (Done b, s))"

text \<open>
  Two callers \<open>A\<close> and \<open>B\<close> verify the same code of the same user, reading the
  clock at \<open>tA\<close> and \<open>tB\<close>. A schedule says whose statement runs next
  (\<open>True\<close> for \<open>A\<close>).
\<close>

fun run :: "int \<Rightarrow> int \<Rightarrow> user \<Rightarrow> string \<Rightarrow> bool list \<Rightarrow> pc \<times> pc \<times> store \<Rightarrow> pc \<times> pc \<times> store" where
  "run tA tB u c [] st = st"
| "run tA tB u c (a # sched) (pa, pb, s) =
     (if a
      then (case verify_step tA u c (pa, s) of (pa', s') \<Rightarrow> run tA tB u c sched (pa', pb, s'))
      else (case verify_step tB u c (pb, s) of (pb', s') \<Rightarrow> run tA tB u c sched (pa, pb', s')))"

definition successes :: "pc \<times> pc \<times> store \<Rightarrow> nat" where
  "successes st =
     (case st of (pa, pb, s) \<Rightarrow>
        (if pa = Done True then 1 else 0) + (if pb = Done True then 1 else 0))"

section \<open>Cache keys\<close>

text \<open>The keys the two views compute from their validated data: the cooldown
  entry of \<open>RequestOTPView\<close> and the attempt counter of \<open>VerifyOTPView\<close>.\<close>

definition request_cache_key :: "data \<Rightarrow> string" where
  "request_cache_key validated_data =
     ''otp_request_'' @ py_str (py_or (validated_data ''email'') (validated_data ''phone_number''))"

definition attempt_cache_key :: "data \<Rightarrow> string" where
  "attempt_cache_key validated_data =
     ''otp_attempts_'' @ py_str (py_or (validated_data ''email'') (validated_data ''phone_number''))"

text \<open>The attempt count \<open>cache.get(attempt_key, 0)\<close> as an integer.\<close>

definition attempts_at :: "store \<Rightarrow> int \<Rightarrow> string \<Rightarrow> int" where
  "attempts_at s t k = (case cache_get (cache s) t k of None \<Rightarrow> 0 | Some v \<Rightarrow> cval_int v)"

section \<open>Example data\<close>

definition alice :: user where
  "alice = \<lparr>user_pk = 1, user_email = ''alice@example.com'', user_phone = ''+15551234567'',
            is_verified = False\<rparr>"

definition empty_store :: store where
  "empty_store = \<lparr>otp_rows = [], otp_next_pk = 1, user_rows = [alice], cache = Map.empty\<rparr>"

definition gateway_up :: gateway where
  "gateway_up = \<lparr>client_raises = False, sms_raises = (\<lambda>_. False), mail_raises = (\<lambda>_. False)\<rparr>"

definition gateway_down :: gateway where
  "gateway_down = \<lparr>client_raises = False, sms_raises = (\<lambda>_. True), mail_raises = (\<lambda>_. True)\<rparr>"

text \<open>A \<open>create_otp\<close> call whose clock readings all fall in second \<open>t\<close>, with the
  draws 0, 4, 2, 9, 1, 7 and no failing database statement.\<close>

definition draws :: "nat \<Rightarrow> nat" where
  "draws i = [0, 4, 2, 9, 1, 7] ! (i mod 6)"

definition issue_at :: "int \<Rightarrow> gateway \<Rightarrow> issue_env" where
  "issue_at t g =
     \<lparr>now_filter = t, now_update = t, now_expiry = t, now_created = t,
      randoms = draws, update_raises = False, create_raises = False,
      delete_raises = False, gateway = g\<rparr>"

definition verify_at :: "int \<Rightarrow> verify_env" where
  "verify_at t = \<lparr>now_lookup = t, lookup_raises = False, save_raises = False\<rparr>"

text \<open>The store after Alice's first code has been issued and delivered, at second 0.\<close>

definition issued_store :: store where
  "issued_store = snd (create_otp (issue_at 0 gateway_up) alice empty_store)"

definition gateway_unconfigured :: gateway where
  "gateway_unconfigured =
     \<lparr>client_raises = True, sms_raises = (\<lambda>_. False), mail_raises = (\<lambda>_. False)\<rparr>"

text \<open>A stand-in for the framework's e-mail validator.\<close>

definition contains_at :: "string \<Rightarrow> bool" where
  "contains_at s \<longleftrightarrow> CHR ''@'' \<in> set s"

text \<open>A stand-in for the phone number normalisation: separators dropped.\<close>

definition e164 :: "string \<Rightarrow> string" where
  "e164 s = filter (\<lambda>c. c \<notin> set '' -()'') s"

text \<open>A code typed with a space before and after it.\<close>

definition padded_code :: data where
  "padded_code = [''email'' \<mapsto> ''alice@example.com'', ''code'' \<mapsto> '' 042917 '']"

definition email_only :: data where
  "email_only = [''email'' \<mapsto> ''alice@example.com'']"

definition both_given :: data where
  "both_given = [''email'' \<mapsto> ''alice@example.com'', ''phone_number'' \<mapsto> ''+15551234567'']"

definition phone_and_code :: data where
  "phone_and_code = [''phone_number'' \<mapsto> ''+15551234567'', ''code'' \<mapsto> ''042917'']"

definition verify_data :: "string \<Rightarrow> data" where
  "verify_data c = [''email'' \<mapsto> ''alice@example.com'', ''code'' \<mapsto> c]"

definition request_at :: "int \<Rightarrow> gateway \<Rightarrow> request_env" where
  "request_at t g = \<lparr>now_cache_get = t, now_cache_set = t, issuing = issue_at t g\<rparr>"

definition verify_request_at :: "int \<Rightarrow> verify_request_env" where
  "verify_request_at t =
     \<lparr>now_attempts_get = t, now_attempts_set = t, verifying = verify_at t,
      access_token = ''access'', refresh_token = ''refresh''\<rparr>"

text \<open>Three wrong guesses at seconds 10, 20 and 30 against the code issued at 0.\<close>

definition wrong_guess :: "int \<Rightarrow> store \<Rightarrow> store" where
  "wrong_guess t s =
     snd (VerifyOTPView_post contains_at e164 (verify_request_at t) (verify_data ''000000'') s)"

definition locked_store :: store where
  "locked_store = wrong_guess 30 (wrong_guess 20 (wrong_guess 10 issued_store))"

text \<open>A fresh code requested at second 100, after the lock.\<close>

definition reissued_store :: store where
  "reissued_store =
     snd (RequestOTPView_post contains_at e164 (request_at 100 gateway_up) email_only locked_store)"

section \<open>The example, evaluated\<close>

lemma generate_otp_draws: "generate_otp draws = ''042917''"
  by code_simp

lemma issued_store_rows:
  "issued_store =
     \<lparr>otp_rows = [\<lparr>otp_pk = 1, otp_user = 1, code = ''042917'', is_used = False,
                   created_at = 0, expires_at = 600\<rparr>],
      otp_next_pk = 2, user_rows = [alice], cache = Map.empty\<rparr>"
  by (simp add: issued_store_def create_otp_def send_otp_def new_otp_def update_live_def
      minutes_def issue_at_def gateway_up_def alice_def empty_store_def Let_def
      generate_otp_draws)

lemma strip_examples:
  "strip ''alice@example.com'' = ''alice@example.com''"
  "strip ''+15551234567'' = ''+15551234567''"
  "strip ''042917'' = ''042917''"
  "strip ''000000'' = ''000000''"
  "strip ''04291'' = ''04291''"
  "strip '' 042917 '' = ''042917''"
  by (simp_all add: strip_def isspace_char_def)

lemma email_only_valid:
  "RequestOTPSerializer_is_valid contains_at email_only
     = Inr (to_internal_value {''email'', ''phone_number''} email_only)"
  by (simp add: RequestOTPSerializer_is_valid_def RequestOTPSerializer_validate_def
      email_field_def char_field_def email_only_def contains_at_def py_truthy_def to_internal_value_def strip_examples)

lemmas request_eval =
  RequestOTPView_post_def RequestOTPSerializer_is_valid_def RequestOTPSerializer_validate_def
  email_field_def char_field_def contains_at_def py_truthy_def py_str_def py_or_def
  to_internal_value_def strip_examples find_user_def cache_get_def cache_set_def cval_truthy_def
  create_otp_def send_otp_def new_otp_def update_live_def delete_row_def live_def minutes_def
  request_at_def issue_at_def gateway_up_def gateway_down_def too_soon_def Let_def
  generate_otp_draws

lemma first_request:
  "RequestOTPView_post contains_at e164 (request_at 0 gateway_up) email_only empty_store
     = (\<lparr>status = 200,
         body = [(''message'', JStr ''OTP sent successfully''),
                 (''expires_in'', JStr ''10 minutes''),
                 (''contact'', JStr ''alice@example.com''),
                 (''delivery_method'', JStr ''email'')]\<rparr>,
        issued_store\<lparr>cache := [''otp_request_alice@example.com'' \<mapsto> (CBool True, 60)]\<rparr>)"
  by (simp add: request_eval issued_store_rows email_only_def empty_store_def alice_def)

lemmas verify_eval =
  VerifyOTPView_post_def VerifyOTPSerializer_is_valid_def code_errors_def validate_code_def
  isdigit_def isdigit_char_def email_field_def char_field_def contains_at_def
  py_truthy_def py_str_def py_or_def to_internal_value_def strip_examples find_user_def
  cache_get_def cache_set_def cache_delete_def cval_int_def max_attempts_def
  verify_otp_def verify_lookup_def verify_commit_def save_row_def save_verified_def matching_def
  verify_request_at_def verify_at_def verify_data_def too_many_attempts_def Let_def

lemma locked_store_eq:
  "locked_store = issued_store\<lparr>cache := [''otp_attempts_alice@example.com'' \<mapsto> (CInt 3, 330)]\<rparr>"
  by (simp add: locked_store_def wrong_guess_def verify_eval issued_store_rows alice_def)

lemma reissue_response:
  "status (fst (RequestOTPView_post contains_at e164 (request_at 100 gateway_up) email_only locked_store))
     = 200"
  by (simp add: locked_store_eq issued_store_rows request_eval email_only_def alice_def)

lemma reissued_store_eq:
  "reissued_store =
     \<lparr>otp_rows = [\<lparr>otp_pk = 1, otp_user = 1, code = ''042917'', is_used = False,
                   created_at = 0, expires_at = 100\<rparr>,
                  \<lparr>otp_pk = 2, otp_user = 1, code = ''042917'', is_used = False,
                   created_at = 100, expires_at = 700\<rparr>],
      otp_next_pk = 3, user_rows = [alice],
      cache = [''otp_attempts_alice@example.com'' \<mapsto> (CInt 3, 330),
               ''otp_request_alice@example.com'' \<mapsto> (CBool True, 160)]\<rparr>"
  by (simp add: reissued_store_def locked_store_eq issued_store_rows request_eval email_only_def
      alice_def)

lemma verify_data_valid:
  "VerifyOTPSerializer_is_valid contains_at (verify_data ''000000'')
     = Inr (to_internal_value {''email'', ''code''} (verify_data ''000000''))"
  "VerifyOTPSerializer_is_valid contains_at (verify_data ''042917'')
     = Inr (to_internal_value {''email'', ''code''} (verify_data ''042917''))"
  by (simp_all add: VerifyOTPSerializer_is_valid_def code_errors_def validate_code_def
      isdigit_def isdigit_char_def email_field_def char_field_def contains_at_def verify_data_def
      strip_examples)

lemma verify_data_key:
  "attempt_cache_key (to_internal_value {''email'', ''code''} (verify_data c)) = ''otp_attempts_alice@example.com''"
  by (simp add: attempt_cache_key_def verify_data_def py_or_def py_truthy_def py_str_def
      to_internal_value_def strip_examples)

lemma two_wrong_eq:
  "wrong_guess 20 (wrong_guess 10 issued_store)
     = issued_store\<lparr>cache := [''otp_attempts_alice@example.com'' \<mapsto> (CInt 2, 320)]\<rparr>"
  by (simp add: wrong_guess_def verify_eval issued_store_rows alice_def)

text \<open>A phone number typed with separators finds the user whose stored number is
  its normal form.\<close>

lemma find_user_by_phone:
  "find_user e164 None (Some ''+1 555 123-4567'') [alice] = Some alice"
  by (simp add: find_user_def e164_def py_truthy_def alice_def)

section \<open>Facts about the query helpers\<close>

lemma first_by_None: "first_by pk rows = None \<longleftrightarrow> rows = []"
  by (induction rows) (auto split: option.splits)

lemma first_by_mem: "first_by pk rows = Some r \<Longrightarrow> r \<in> set rows"
  by (induction rows arbitrary: r) (auto split: option.splits if_splits)

lemma first_by_least: "first_by pk rows = Some r \<Longrightarrow> x \<in> set rows \<Longrightarrow> pk r \<le> pk x"
proof (induction rows arbitrary: r)
  case Nil
  then show ?case by simp
next
  case (Cons a rows)
  show ?case
  proof (cases "first_by pk rows")
    case None
    then have "rows = []" by (simp add: first_by_None)
    with Cons.prems None show ?thesis by simp
  next
    case (Some m)
    have m: "x \<in> set rows \<Longrightarrow> pk m \<le> pk x" using Cons.IH [OF Some] .
    from Cons.prems(1) Some have r: "r = (if pk a \<le> pk m then a else m)"
      by (auto split: if_splits)
    from Cons.prems(2) have "x = a \<or> x \<in> set rows" by simp
    then show ?thesis
    proof
      assume "x = a"
      with r show ?thesis by (cases "pk a \<le> pk m") simp_all
    next
      assume "x \<in> set rows"
      then have "pk m \<le> pk x" by (rule m)
      with r show ?thesis by (cases "pk a \<le> pk m") simp_all
    qed
  qed
qed

lemma update_live_not_live:
  assumes "t1 \<le> t" "t2 \<le> t" "r \<in> set (update_live t1 t2 uid rows)"
  shows "\<not> live t uid r"
proof -
  from assms(3)
  have "r \<in> (\<lambda>r. if live t1 uid r then r\<lparr>expires_at := t2\<rparr> else r) ` set rows"
    by (simp only: update_live_def set_map)
  then obtain r0 where r: "r = (if live t1 uid r0 then r0\<lparr>expires_at := t2\<rparr> else r0)"
    by blast
  show ?thesis
  proof (cases "live t1 uid r0")
    case True
    with r assms(2) show ?thesis by (simp add: live_def)
  next
    case False
    with r assms(1) show ?thesis by (auto simp: live_def)
  qed
qed

lemma filter_live_update_live:
  assumes "t1 \<le> t" "t2 \<le> t"
  shows "filter (live t uid) (update_live t1 t2 uid rows) = []"
  using assms update_live_not_live by (auto simp: filter_empty_conv)

lemma filter_delete_row_length:
  "length (filter P (delete_row otp rows)) \<le> length (filter P rows)"
  unfolding delete_row_def
  by (induction rows) auto

lemma update_live_mem:
  "r \<in> set rows \<Longrightarrow> live t1 uid r \<Longrightarrow> r\<lparr>expires_at := t2\<rparr> \<in> set (update_live t1 t2 uid rows)"
  by (force simp: update_live_def)

section \<open>Issuing a code\<close>

lemma create_otp_rows_cases:
  assumes "\<not> update_raises e" "\<not> create_raises e" "create_otp e u s = (res, s')"
  shows "otp_rows s' = update_live (now_filter e) (now_update e) (user_pk u) (otp_rows s) @ [new_otp e u s]
       \<or> otp_rows s' = delete_row (new_otp e u s)
            (update_live (now_filter e) (now_update e) (user_pk u) (otp_rows s) @ [new_otp e u s])"
  using assms by (auto simp: create_otp_def Let_def new_otp_def split: if_splits)

lemma create_otp_Some:
  assumes "create_otp e u s = (Some otp, s')"
  shows "otp = new_otp e u s"
    and "otp_rows s' = update_live (now_filter e) (now_update e) (user_pk u) (otp_rows s) @ [otp]"
    and "otp_next_pk s' = Suc (otp_pk otp)"
  using assms by (auto simp: create_otp_def Let_def new_otp_def split: if_splits)

text \<open>
  Claim C1. Take a call of \<open>create_otp\<close> that reaches the issuance step (neither
  the UPDATE nor the INSERT raises), on a clock that does not run backwards,
  and any later instant \<open>t\<close>. Then at most one code of the user is live at
  \<open>t\<close>; every code that was live before has had \<open>expires_at\<close> set to the
  clock reading of the update; a live code can only be the new row, which
  expires ten minutes after the reading of line 39; a returned code is the one
  row appended to the invalidated table; and if the store came from an earlier
  successful issuance for the same user, that first code is no longer live.
\<close>

theorem create_otp_single_live:
  assumes reach: "\<not> update_raises e" "\<not> create_raises e"
    and clock: "now_filter e \<le> now_update e" "now_update e \<le> now_expiry e" "now_expiry e \<le> t"
    and call: "create_otp e u s = (res, s')"
  shows "length (filter (live t (user_pk u)) (otp_rows s')) \<le> 1
    \<and> (\<forall>r \<in> set (otp_rows s). live (now_filter e) (user_pk u) r \<and> otp_pk r < otp_next_pk s
          \<longrightarrow> r\<lparr>expires_at := now_update e\<rparr> \<in> set (otp_rows s'))
    \<and> (\<forall>r \<in> set (otp_rows s'). live t (user_pk u) r
          \<longrightarrow> otp_pk r = otp_next_pk s \<and> expires_at r = now_expiry e + minutes 10)
    \<and> (\<forall>otp. res = Some otp
          \<longrightarrow> otp_rows s' = update_live (now_filter e) (now_update e) (user_pk u) (otp_rows s) @ [otp]
            \<and> otp_user otp = user_pk u \<and> \<not> is_used otp
            \<and> expires_at otp = now_expiry e + minutes 10)
    \<and> (\<forall>e0 s0 first_otp. create_otp e0 u s0 = (Some first_otp, s)
          \<longrightarrow> (\<forall>r \<in> set (otp_rows s'). otp_pk r = otp_pk first_otp \<longrightarrow> \<not> live t (user_pk u) r))"
proof -
  let ?old = "update_live (now_filter e) (now_update e) (user_pk u) (otp_rows s)"
  let ?new = "new_otp e u s"
  have le: "now_filter e \<le> t" "now_update e \<le> t" using clock by simp_all
  have dead: "\<And>r. r \<in> set ?old \<Longrightarrow> \<not> live t (user_pk u) r"
    using update_live_not_live [OF le] by blast
  have rows: "otp_rows s' = ?old @ [?new] \<or> otp_rows s' = delete_row ?new (?old @ [?new])"
    using create_otp_rows_cases [OF reach call] .
  have sub: "set (otp_rows s') \<subseteq> set ?old \<union> {?new}"
    using rows by (auto simp: delete_row_def)
  have one: "length (filter (live t (user_pk u)) (otp_rows s')) \<le> 1"
    using rows
  proof
    assume "otp_rows s' = ?old @ [?new]"
    then show ?thesis by (simp add: filter_live_update_live [OF le])
  next
    assume "otp_rows s' = delete_row ?new (?old @ [?new])"
    then have "length (filter (live t (user_pk u)) (otp_rows s'))
        \<le> length (filter (live t (user_pk u)) (?old @ [?new]))"
      by (simp only: filter_delete_row_length)
    also have "\<dots> \<le> 1" by (simp add: filter_live_update_live [OF le])
    finally show ?thesis .
  qed
  have inv: "\<forall>r \<in> set (otp_rows s). live (now_filter e) (user_pk u) r \<and> otp_pk r < otp_next_pk s
      \<longrightarrow> r\<lparr>expires_at := now_update e\<rparr> \<in> set (otp_rows s')"
  proof (intro ballI impI)
    fix r assume r: "r \<in> set (otp_rows s)"
      and lv: "live (now_filter e) (user_pk u) r \<and> otp_pk r < otp_next_pk s"
    have mem: "r\<lparr>expires_at := now_update e\<rparr> \<in> set ?old"
      using update_live_mem r lv by blast
    have "otp_pk (r\<lparr>expires_at := now_update e\<rparr>) \<noteq> otp_pk ?new"
      using lv by (simp add: new_otp_def)
    with mem rows show "r\<lparr>expires_at := now_update e\<rparr> \<in> set (otp_rows s')"
      by (auto simp: delete_row_def)
  qed
  have only_new: "\<forall>r \<in> set (otp_rows s'). live t (user_pk u) r
      \<longrightarrow> otp_pk r = otp_next_pk s \<and> expires_at r = now_expiry e + minutes 10"
  proof (intro ballI impI)
    fix r assume "r \<in> set (otp_rows s')" and lv: "live t (user_pk u) r"
    with sub dead have "r = ?new" by blast
    then show "otp_pk r = otp_next_pk s \<and> expires_at r = now_expiry e + minutes 10"
      by (simp add: new_otp_def)
  qed
  have issued: "\<forall>otp. res = Some otp
      \<longrightarrow> otp_rows s' = ?old @ [otp] \<and> otp_user otp = user_pk u \<and> \<not> is_used otp
        \<and> expires_at otp = now_expiry e + minutes 10"
  proof (intro allI impI)
    fix otp assume "res = Some otp"
    with call have c: "create_otp e u s = (Some otp, s')" by simp
    from create_otp_Some(1,2) [OF c]
    show "otp_rows s' = ?old @ [otp] \<and> otp_user otp = user_pk u \<and> \<not> is_used otp
        \<and> expires_at otp = now_expiry e + minutes 10"
      by (simp add: new_otp_def)
  qed
  have twice: "\<forall>e0 s0 first_otp. create_otp e0 u s0 = (Some first_otp, s)
      \<longrightarrow> (\<forall>r \<in> set (otp_rows s'). otp_pk r = otp_pk first_otp \<longrightarrow> \<not> live t (user_pk u) r)"
  proof (intro allI impI ballI)
    fix e0 s0 first_otp r
    assume c0: "create_otp e0 u s0 = (Some first_otp, s)"
      and r: "r \<in> set (otp_rows s')" and pk: "otp_pk r = otp_pk first_otp"
    from create_otp_Some(3) [OF c0] pk have "otp_pk r \<noteq> otp_next_pk s" by simp
    with only_new r show "\<not> live t (user_pk u) r" by blast
  qed
  from one inv only_new issued twice show ?thesis by blast
qed

theorem create_otp_single_live_witness:
  "create_otp (issue_at 0 gateway_up) alice empty_store
     = (Some (new_otp (issue_at 0 gateway_up) alice empty_store),
        snd (create_otp (issue_at 0 gateway_up) alice empty_store))
   \<and> live 60 1 (new_otp (issue_at 0 gateway_up) alice empty_store)
   \<and> \<not> update_raises (issue_at 60 gateway_up) \<and> \<not> create_raises (issue_at 60 gateway_up)
   \<and> map otp_pk (filter (live 60 1)
        (otp_rows (snd (create_otp (issue_at 60 gateway_up) alice
           (snd (create_otp (issue_at 0 gateway_up) alice empty_store)))))) = [2]"
  using create_otp_single_live [of "issue_at 60 gateway_up" 60 alice
      "snd (create_otp (issue_at 0 gateway_up) alice empty_store)"
      "fst (create_otp (issue_at 60 gateway_up) alice
           (snd (create_otp (issue_at 0 gateway_up) alice empty_store)))"
      "snd (create_otp (issue_at 60 gateway_up) alice
           (snd (create_otp (issue_at 0 gateway_up) alice empty_store)))"]
  by (simp add: create_otp_def send_otp_def new_otp_def update_live_def live_def minutes_def
      issue_at_def gateway_up_def alice_def empty_store_def Let_def)

section \<open>Failed delivery\<close>

lemma update_live_pk: "otp_pk ` set (update_live t1 t2 uid rows) = otp_pk ` set rows"
proof -
  have "map otp_pk (update_live t1 t2 uid rows) = map otp_pk rows"
    unfolding update_live_def by (induction rows) simp_all
  then have "set (map otp_pk (update_live t1 t2 uid rows)) = set (map otp_pk rows)" by simp
  then show ?thesis by (simp only: set_map)
qed

lemma delete_row_fresh:
  assumes "\<forall>r \<in> set rows. otp_pk r \<noteq> otp_pk otp"
  shows "delete_row otp (rows @ [otp]) = rows"
  using assms unfolding delete_row_def by (induction rows) simp_all

lemma update_live_fresh:
  assumes "\<forall>r \<in> set rows. otp_pk r < n"
  shows "\<forall>r \<in> set (update_live t1 t2 uid rows). otp_pk r < n"
proof
  fix r assume "r \<in> set (update_live t1 t2 uid rows)"
  then have "otp_pk r \<in> otp_pk ` set rows" using update_live_pk by blast
  with assms show "otp_pk r < n" by auto
qed

text \<open>
  Claim C3. On a table whose keys are below the auto-increment counter, when
  the UPDATE, the INSERT and the DELETE do not raise and \<open>send_otp\<close> reports
  failure for the generated code, \<open>create_otp\<close> returns \<open>None\<close> and the table
  holds exactly the invalidated old rows: the row created for this issuance is
  gone, and no row carries its key.
\<close>

theorem create_otp_rollback:
  assumes fresh: "\<forall>r \<in> set (otp_rows s). otp_pk r < otp_next_pk s"
    and reach: "\<not> update_raises e" "\<not> create_raises e"
    and del: "\<not> delete_raises e"
    and failed: "\<not> fst (send_otp (gateway e) u (generate_otp (randoms e)))"
  shows "create_otp e u s =
           (None, s\<lparr>otp_rows := update_live (now_filter e) (now_update e) (user_pk u) (otp_rows s),
                    otp_next_pk := Suc (otp_next_pk s)\<rparr>)
       \<and> new_otp e u s \<notin> set (otp_rows (snd (create_otp e u s)))
       \<and> (\<forall>r \<in> set (otp_rows (snd (create_otp e u s))). otp_pk r \<noteq> otp_next_pk s)"
proof -
  let ?old = "update_live (now_filter e) (now_update e) (user_pk u) (otp_rows s)"
  let ?new = "new_otp e u s"
  have low: "\<forall>r \<in> set ?old. otp_pk r < otp_next_pk s"
    using update_live_fresh [OF fresh] .
  have pk: "otp_pk ?new = otp_next_pk s" by (simp add: new_otp_def)
  have "\<forall>r \<in> set ?old. otp_pk r \<noteq> otp_pk ?new" using low pk by auto
  then have del_eq: "delete_row ?new (?old @ [?new]) = ?old" by (rule delete_row_fresh)
  have cd: "code ?new = generate_otp (randoms e)" by (simp add: new_otp_def)
  have nw: "new_otp e (u) (s\<lparr>otp_rows := ?old\<rparr>) = ?new" by (simp add: new_otp_def)
  have eq: "create_otp e u s = (None, s\<lparr>otp_rows := ?old, otp_next_pk := Suc (otp_next_pk s)\<rparr>)"
    using reach del failed by (simp add: create_otp_def Let_def nw cd del_eq)
  have notin: "?new \<notin> set ?old" using low pk by auto
  show ?thesis using eq notin low by auto
qed


theorem create_otp_rollback_witness:
  "map otp_pk (otp_rows issued_store) = [1] \<and> otp_next_pk issued_store = 2
   \<and> \<not> fst (send_otp gateway_down alice (generate_otp draws))
   \<and> fst (create_otp (issue_at 60 gateway_down) alice issued_store) = None
   \<and> map otp_pk (otp_rows (snd (create_otp (issue_at 60 gateway_down) alice issued_store))) = [1]"
  using create_otp_rollback [of issued_store "issue_at 60 gateway_down" alice]
  by (simp add: issued_store_rows create_otp_def send_otp_def new_otp_def update_live_def
      live_def minutes_def issue_at_def gateway_down_def alice_def Let_def delete_row_def)

lemma create_otp_failed_rows:
  assumes fresh: "\<forall>r \<in> set (otp_rows s). otp_pk r < otp_next_pk s"
    and upd: "\<not> update_raises e"
    and failed: "fst (create_otp e u s) = None"
  shows "(create_raises e \<or> \<not> delete_raises e \<longrightarrow>
            otp_rows (snd (create_otp e u s))
              = update_live (now_filter e) (now_update e) (user_pk u) (otp_rows s))
       \<and> (\<not> create_raises e \<and> delete_raises e \<longrightarrow>
            otp_rows (snd (create_otp e u s))
              = update_live (now_filter e) (now_update e) (user_pk u) (otp_rows s) @ [new_otp e u s])"
proof -
  let ?old = "update_live (now_filter e) (now_update e) (user_pk u) (otp_rows s)"
  let ?new = "new_otp e u s"
  have low: "\<forall>r \<in> set ?old. otp_pk r < otp_next_pk s"
    using update_live_fresh [OF fresh] .
  have pk: "otp_pk ?new = otp_next_pk s" by (simp add: new_otp_def)
  have "\<forall>r \<in> set ?old. otp_pk r \<noteq> otp_pk ?new" using low pk by auto
  then have del_eq: "delete_row ?new (?old @ [?new]) = ?old" by (rule delete_row_fresh)
  have nw: "new_otp e u (s\<lparr>otp_rows := ?old\<rparr>) = ?new" by (simp add: new_otp_def)
  show ?thesis
  proof (cases "create_raises e")
    case True
    with upd show ?thesis by (simp add: create_otp_def Let_def)
  next
    case False
    with upd failed have nosend: "\<not> fst (send_otp (gateway e) u (code ?new))"
      by (simp add: create_otp_def Let_def nw split: if_splits)
    show ?thesis
    proof (cases "delete_raises e")
      case True
      with upd False nosend show ?thesis by (simp add: create_otp_def Let_def nw)
    next
      case del: False
      with upd False nosend show ?thesis by (simp add: create_otp_def Let_def nw del_eq)
    qed
  qed
qed

text \<open>
  Claim C10. When the invalidating UPDATE has run and \<open>create_otp\<close> then
  returns \<open>None\<close> (the INSERT raised, or delivery failed, with the DELETE
  succeeding or raising), every code that was live before the call is in the
  table with \<open>expires_at\<close> set to the clock reading of the update, no row
  that existed before the call is live at any later instant, and unless the
  DELETE raised the user has no live code at all.
\<close>

theorem create_otp_failure_keeps_invalidation:
  assumes fresh: "\<forall>r \<in> set (otp_rows s). otp_pk r < otp_next_pk s"
    and upd: "\<not> update_raises e"
    and failed: "fst (create_otp e u s) = None"
    and clock: "now_filter e \<le> now_update e" "now_update e \<le> t"
  shows "(\<forall>r \<in> set (otp_rows s). live (now_filter e) (user_pk u) r
            \<longrightarrow> r\<lparr>expires_at := now_update e\<rparr> \<in> set (otp_rows (snd (create_otp e u s))))
       \<and> (\<forall>r \<in> set (otp_rows (snd (create_otp e u s))). otp_pk r < otp_next_pk s
            \<longrightarrow> \<not> live t (user_pk u) r)
       \<and> (create_raises e \<or> \<not> delete_raises e
            \<longrightarrow> filter (live t (user_pk u)) (otp_rows (snd (create_otp e u s))) = [])"
proof -
  let ?old = "update_live (now_filter e) (now_update e) (user_pk u) (otp_rows s)"
  let ?new = "new_otp e u s"
  let ?rows = "otp_rows (snd (create_otp e u s))"
  have le: "now_filter e \<le> t" "now_update e \<le> t" using clock by simp_all
  have dead: "\<And>r. r \<in> set ?old \<Longrightarrow> \<not> live t (user_pk u) r"
    using update_live_not_live [OF le] by blast
  have pk: "otp_pk ?new = otp_next_pk s" by (simp add: new_otp_def)
  from create_otp_failed_rows [OF fresh upd failed]
  have rows: "?rows = ?old \<or> ?rows = ?old @ [?new]"
    and rolled: "create_raises e \<or> \<not> delete_raises e \<Longrightarrow> ?rows = ?old"
    by blast+
  have a: "\<forall>r \<in> set (otp_rows s). live (now_filter e) (user_pk u) r
      \<longrightarrow> r\<lparr>expires_at := now_update e\<rparr> \<in> set ?rows"
  proof (intro ballI impI)
    fix r assume "r \<in> set (otp_rows s)" "live (now_filter e) (user_pk u) r"
    then have "r\<lparr>expires_at := now_update e\<rparr> \<in> set ?old" by (rule update_live_mem)
    with rows show "r\<lparr>expires_at := now_update e\<rparr> \<in> set ?rows" by auto
  qed
  have b: "\<forall>r \<in> set ?rows. otp_pk r < otp_next_pk s \<longrightarrow> \<not> live t (user_pk u) r"
  proof (intro ballI impI)
    fix r assume r: "r \<in> set ?rows" and "otp_pk r < otp_next_pk s"
    with pk have "r \<noteq> ?new" by auto
    with r rows have "r \<in> set ?old" by auto
    then show "\<not> live t (user_pk u) r" by (rule dead)
  qed
  have c: "create_raises e \<or> \<not> delete_raises e \<longrightarrow> filter (live t (user_pk u)) ?rows = []"
  proof
    assume "create_raises e \<or> \<not> delete_raises e"
    then have "?rows = ?old" by (rule rolled)
    then show "filter (live t (user_pk u)) ?rows = []"
      by (simp add: filter_live_update_live [OF le])
  qed
  from a b c show ?thesis by blast
qed

theorem create_otp_failure_keeps_invalidation_witness:
  "map otp_pk (otp_rows issued_store) = [1] \<and> otp_next_pk issued_store = 2
   \<and> map otp_pk (filter (live 60 1) (otp_rows issued_store)) = [1]
   \<and> fst (create_otp (issue_at 60 gateway_down) alice issued_store) = None
   \<and> map expires_at (otp_rows (snd (create_otp (issue_at 60 gateway_down) alice issued_store)))
       = [60]
   \<and> filter (live 60 1) (otp_rows (snd (create_otp (issue_at 60 gateway_down) alice issued_store)))
       = []"
  using create_otp_failure_keeps_invalidation [of issued_store "issue_at 60 gateway_down" alice 60]
  by (simp add: issued_store_rows create_otp_def send_otp_def new_otp_def update_live_def
      live_def minutes_def issue_at_def gateway_down_def alice_def Let_def delete_row_def)

section \<open>Verifying a code\<close>

lemma verify_lookup_None:
  "verify_lookup t u c s = None \<longleftrightarrow> (\<forall>r \<in> set (otp_rows s). \<not> matching t (user_pk u) c r)"
  by (simp add: verify_lookup_def first_by_None filter_empty_conv)

lemma verify_lookup_Some:
  assumes "verify_lookup t u c s = Some otp"
  shows "otp \<in> set (otp_rows s)" and "matching t (user_pk u) c otp"
proof -
  from assms have "otp \<in> set (filter (matching t (user_pk u) c) (otp_rows s))"
    unfolding verify_lookup_def by (rule first_by_mem)
  then show "otp \<in> set (otp_rows s)" and "matching t (user_pk u) c otp" by simp_all
qed

lemma matching_later: "t1 \<le> t2 \<Longrightarrow> matching t2 uid c r \<Longrightarrow> matching t1 uid c r"
  by (simp add: matching_def)

lemma short_list_unique:
  assumes "length xs \<le> 1" "a \<in> set xs" "b \<in> set xs"
  shows "a = b"
  using assms by (cases xs) auto

lemma save_row_mem:
  assumes "r \<in> set (save_row otp rows)"
  shows "r = otp \<or> (r \<in> set rows \<and> otp_pk r \<noteq> otp_pk otp)"
proof -
  from assms have "r \<in> (\<lambda>r. if otp_pk r = otp_pk otp then otp else r) ` set rows"
    by (simp only: save_row_def set_map)
  then obtain r0 where "r0 \<in> set rows" "r = (if otp_pk r0 = otp_pk otp then otp else r0)"
    by blast
  then show ?thesis by (cases "otp_pk r0 = otp_pk otp") simp_all
qed

lemma verify_commit_no_match:
  assumes one: "length (filter (matching t1 uid c) (otp_rows s)) \<le> 1"
    and otp: "otp \<in> set (otp_rows s)" "matching t1 uid c otp"
    and le: "t1 \<le> t2"
    and r: "r \<in> set (otp_rows (verify_commit otp s))"
  shows "\<not> matching t2 uid c r"
proof
  assume m: "matching t2 uid c r"
  from r have "r \<in> set (save_row (otp\<lparr>is_used := True\<rparr>) (otp_rows s))"
    by (simp add: verify_commit_def)
  then have "r = otp\<lparr>is_used := True\<rparr> \<or> (r \<in> set (otp_rows s) \<and> otp_pk r \<noteq> otp_pk otp)"
    using save_row_mem [of r "otp\<lparr>is_used := True\<rparr>" "otp_rows s"] by simp
  then show False
  proof
    assume "r = otp\<lparr>is_used := True\<rparr>"
    with m show False by (simp add: matching_def)
  next
    assume old: "r \<in> set (otp_rows s) \<and> otp_pk r \<noteq> otp_pk otp"
    from m le have "matching t1 uid c r" using matching_later by blast
    with old otp have "r \<in> set (filter (matching t1 uid c) (otp_rows s))"
      "otp \<in> set (filter (matching t1 uid c) (otp_rows s))" by simp_all
    with one have "r = otp" by (rule short_list_unique)
    with old show False by simp
  qed
qed

text \<open>
  Claim C2. When neither database statement raises, \<open>verify_otp\<close> returns
  \<open>True\<close> exactly when the table holds a row of this user with this code that
  is unused and not yet expired at the clock reading of the call; on success
  the stored row is that row with \<open>is_used\<close> set; every failure returns
  \<open>False\<close> and leaves the store as it was, whatever the cause; and on a table
  with at most one such row, verifying the same code again at a later reading
  returns \<open>False\<close> with the store unchanged.
\<close>

theorem verify_otp_iff_live:
  assumes db: "\<not> lookup_raises e" "\<not> save_raises e"
  shows "(fst (verify_otp e u c s)
            \<longleftrightarrow> (\<exists>r \<in> set (otp_rows s). matching (now_lookup e) (user_pk u) c r))
       \<and> (fst (verify_otp e u c s) \<longrightarrow>
            (\<exists>r \<in> set (otp_rows s). matching (now_lookup e) (user_pk u) c r
               \<and> snd (verify_otp e u c s)
                   = s\<lparr>otp_rows := save_row (r\<lparr>is_used := True\<rparr>) (otp_rows s)\<rparr>
               \<and> r\<lparr>is_used := True\<rparr> \<in> set (otp_rows (snd (verify_otp e u c s)))))
       \<and> (\<not> fst (verify_otp e u c s) \<longrightarrow> verify_otp e u c s = (False, s))
       \<and> (\<forall>e2. now_lookup e \<le> now_lookup e2
              \<and> length (filter (matching (now_lookup e) (user_pk u) c) (otp_rows s)) \<le> 1
            \<longrightarrow> verify_otp e2 u c (snd (verify_otp e u c s))
                  = (False, snd (verify_otp e u c s)))"
proof (cases "verify_lookup (now_lookup e) u c s")
  case None
  then have none: "\<forall>r \<in> set (otp_rows s). \<not> matching (now_lookup e) (user_pk u) c r"
    by (simp add: verify_lookup_None)
  from None db have v: "verify_otp e u c s = (False, s)" by (simp add: verify_otp_def)
  have again: "\<forall>e2. now_lookup e \<le> now_lookup e2
      \<longrightarrow> verify_otp e2 u c s = (False, s)"
  proof (intro allI impI)
    fix e2 :: verify_env assume "now_lookup e \<le> now_lookup e2"
    with none have "\<forall>r \<in> set (otp_rows s). \<not> matching (now_lookup e2) (user_pk u) c r"
      using matching_later by blast
    then have "verify_lookup (now_lookup e2) u c s = None" by (simp add: verify_lookup_None)
    then show "verify_otp e2 u c s = (False, s)" by (simp add: verify_otp_def)
  qed
  from v none again show ?thesis by simp
next
  case (Some otp)
  note found = verify_lookup_Some [OF Some]
  let ?s' = "verify_commit otp s"
  from Some db have v: "verify_otp e u c s = (True, ?s')" by (simp add: verify_otp_def)
  have mem: "otp\<lparr>is_used := True\<rparr> \<in> set (otp_rows ?s')"
  proof -
    have "(\<lambda>r. if otp_pk r = otp_pk (otp\<lparr>is_used := True\<rparr>) then otp\<lparr>is_used := True\<rparr> else r) otp
        \<in> (\<lambda>r. if otp_pk r = otp_pk (otp\<lparr>is_used := True\<rparr>) then otp\<lparr>is_used := True\<rparr> else r)
            ` set (otp_rows s)"
      using found(1) by (rule imageI)
    then show ?thesis by (simp add: verify_commit_def save_row_def)
  qed
  have again: "\<forall>e2. now_lookup e \<le> now_lookup e2
        \<and> length (filter (matching (now_lookup e) (user_pk u) c) (otp_rows s)) \<le> 1
      \<longrightarrow> verify_otp e2 u c ?s' = (False, ?s')"
  proof (intro allI impI)
    fix e2 :: verify_env
    assume h: "now_lookup e \<le> now_lookup e2
        \<and> length (filter (matching (now_lookup e) (user_pk u) c) (otp_rows s)) \<le> 1"
    have "\<forall>r \<in> set (otp_rows ?s'). \<not> matching (now_lookup e2) (user_pk u) c r"
      using verify_commit_no_match [of "now_lookup e" "user_pk u" c s otp "now_lookup e2"] h found
      by blast
    then have "verify_lookup (now_lookup e2) u c ?s' = None" by (simp add: verify_lookup_None)
    then show "verify_otp e2 u c ?s' = (False, ?s')" by (simp add: verify_otp_def)
  qed
  have ex: "\<exists>r \<in> set (otp_rows s). matching (now_lookup e) (user_pk u) c r
      \<and> ?s' = s\<lparr>otp_rows := save_row (r\<lparr>is_used := True\<rparr>) (otp_rows s)\<rparr>
      \<and> r\<lparr>is_used := True\<rparr> \<in> set (otp_rows ?s')"
    using found mem by (intro bexI [of _ otp]) (simp_all add: verify_commit_def)
  from v ex again found show ?thesis by (simp only: fst_conv snd_conv) blast
qed


theorem verify_otp_iff_live_witness:
  "\<not> lookup_raises (verify_at 30) \<and> \<not> save_raises (verify_at 30)
   \<and> fst (verify_otp (verify_at 30) alice ''042917'' issued_store)
   \<and> map is_used (otp_rows (snd (verify_otp (verify_at 30) alice ''042917'' issued_store))) = [True]
   \<and> \<not> fst (verify_otp (verify_at 40) alice ''042917''
            (snd (verify_otp (verify_at 30) alice ''042917'' issued_store)))
   \<and> \<not> fst (verify_otp (verify_at 30) alice ''000000'' issued_store)
   \<and> \<not> fst (verify_otp (verify_at 600) alice ''042917'' issued_store)"
  using verify_otp_iff_live [of "verify_at 30" alice "''042917''" issued_store]
  by (simp add: issued_store_rows verify_otp_def verify_lookup_def verify_commit_def
      save_row_def matching_def verify_at_def alice_def)

section \<open>Delivery\<close>

text \<open>
  When the Twilio client is constructed, \<open>send_otp\<close> tries the SMS to the user's
  phone number first, tries the e-mail exactly when the SMS raised and the user
  has an e-mail address, and reports failure exactly when the SMS raised and
  the e-mail is missing or raised too.
\<close>

lemma send_otp_fallback:
  assumes "\<not> client_raises g"
  shows "(\<exists>rest. snd (send_otp g u c) = Sms (user_phone u) c # rest
             \<and> set rest \<subseteq> {Mail (user_email u) c})
       \<and> (Mail (user_email u) c \<in> set (snd (send_otp g u c))
            \<longleftrightarrow> sms_raises g (user_phone u) \<and> user_email u \<noteq> [])
       \<and> (\<not> fst (send_otp g u c)
            \<longleftrightarrow> sms_raises g (user_phone u)
                \<and> (user_email u = [] \<or> mail_raises g (user_email u)))"
  using assms by (simp add: send_otp_def)

text \<open>
  Claim C7. When constructing the Twilio client raises, \<open>send_otp\<close> returns
  \<open>False\<close> without any delivery call: no SMS is attempted and the e-mail
  fallback is skipped, although the user has an e-mail address and the mail
  would have gone out. The client is constructed inside the outer \<open>try\<close> but
  outside the inner one whose handler holds the fallback.
\<close>

theorem send_otp_client_failure:
  "send_otp gateway_unconfigured alice ''042917'' = (False, [])
   \<and> user_email alice \<noteq> []
   \<and> \<not> mail_raises gateway_unconfigured (user_email alice)"
  by (simp add: send_otp_def gateway_unconfigured_def alice_def)

section \<open>Input validation\<close>

lemma email_field_empty:
  "email_field ok required name d = [] \<longleftrightarrow>
     (case d name of None \<Rightarrow> \<not> required | Some s \<Rightarrow> strip s \<noteq> [] \<and> ok (strip s))"
  by (simp add: email_field_def split: option.splits)

lemma char_field_empty:
  "char_field required mn mx name d = [] \<longleftrightarrow>
     (case d name of
        None \<Rightarrow> \<not> required
      | Some s \<Rightarrow> strip s \<noteq> []
          \<and> (case mx of None \<Rightarrow> True | Some n \<Rightarrow> length (strip s) \<le> n)
          \<and> (case mn of None \<Rightarrow> True | Some n \<Rightarrow> n \<le> length (strip s)))"
  by (auto simp: char_field_def split: option.splits)

lemma RequestOTPSerializer_validate_rejects:
  "isl (RequestOTPSerializer_validate attrs)
     \<longleftrightarrow> \<not> py_truthy (attrs ''email'') \<and> \<not> py_truthy (attrs ''phone_number'')"
  by (simp add: RequestOTPSerializer_validate_def Let_def)

text \<open>
  Claim C9, as the code has it. \<open>RequestOTPSerializer\<close> rejects a request
  exactly when it provides neither an e-mail address nor a phone number, or a
  provided field is blank once trimmed, or the provided e-mail address is
  malformed; in particular a request providing neither is rejected, and
  \<open>validate\<close> itself rejects exactly when both values are missing or empty. A
  request providing both is accepted.
\<close>

theorem request_otp_at_least_one:
  "(d ''email'' = None \<and> d ''phone_number'' = None
      \<longrightarrow> isl (RequestOTPSerializer_is_valid ok_email d))
   \<and> (isl (RequestOTPSerializer_is_valid ok_email d)
        \<longleftrightarrow> (d ''email'' = None \<and> d ''phone_number'' = None)
            \<or> (\<exists>e. d ''email'' = Some e \<and> (strip e = [] \<or> \<not> ok_email (strip e)))
            \<or> (\<exists>p. d ''phone_number'' = Some p \<and> strip p = []))
   \<and> (isl (RequestOTPSerializer_validate d)
        \<longleftrightarrow> \<not> py_truthy (d ''email'') \<and> \<not> py_truthy (d ''phone_number''))"
proof -
  have errs: "email_field ok_email False ''email'' d
                @ char_field False None None ''phone_number'' d = []
      \<longleftrightarrow> \<not> (\<exists>e. d ''email'' = Some e \<and> (strip e = [] \<or> \<not> ok_email (strip e)))
          \<and> \<not> (\<exists>p. d ''phone_number'' = Some p \<and> strip p = [])"
    by (auto simp: email_field_empty char_field_empty split: option.splits)
  have main: "isl (RequestOTPSerializer_is_valid ok_email d)
        \<longleftrightarrow> (d ''email'' = None \<and> d ''phone_number'' = None)
            \<or> (\<exists>e. d ''email'' = Some e \<and> (strip e = [] \<or> \<not> ok_email (strip e)))
            \<or> (\<exists>p. d ''phone_number'' = Some p \<and> strip p = [])"
  proof (cases "email_field ok_email False ''email'' d
                @ char_field False None None ''phone_number'' d = []")
    case True
    then have "isl (RequestOTPSerializer_is_valid ok_email d)
        \<longleftrightarrow> \<not> py_truthy (map_option strip (d ''email''))
            \<and> \<not> py_truthy (map_option strip (d ''phone_number''))"
      by (simp add: RequestOTPSerializer_is_valid_def RequestOTPSerializer_validate_rejects
          to_internal_value_def)
    with True errs show ?thesis by (auto simp: py_truthy_def split: option.splits)
  next
    case False
    then have "isl (RequestOTPSerializer_is_valid ok_email d)"
      by (simp add: RequestOTPSerializer_is_valid_def)
    with False errs show ?thesis by auto
  qed
  from main show ?thesis by (simp add: RequestOTPSerializer_validate_rejects)
qed

theorem request_otp_at_least_one_witness:
  "Map.empty ''email'' = (None :: string option)
   \<and> isl (RequestOTPSerializer_is_valid contains_at Map.empty)
   \<and> isl (RequestOTPSerializer_validate Map.empty)"
  using request_otp_at_least_one [of Map.empty contains_at]
  by (simp add: py_truthy_def)

text \<open>
  Claim C9 as stated fails: a request that provides both an e-mail address and
  a phone number passes the field validators and \<open>validate\<close>.
\<close>

theorem request_otp_both_accepted:
  "\<not> isl (RequestOTPSerializer_is_valid contains_at both_given)
   \<and> \<not> isl (RequestOTPSerializer_validate both_given)
   \<and> both_given ''email'' = Some ''alice@example.com''
   \<and> both_given ''phone_number'' = Some ''+15551234567''"
  by (simp add: RequestOTPSerializer_is_valid_def RequestOTPSerializer_validate_def
      email_field_def char_field_def both_given_def contains_at_def py_truthy_def
      to_internal_value_def strip_examples)

text \<open>
  \<open>VerifyOTPSerializer\<close> accepts exactly the inputs with an e-mail address that
  is non-blank and well-formed once trimmed, and a code that once trimmed has
  exactly six characters, all digits. A rejected input never reaches the
  attempt counter or the OTP table: the view answers with its generic error
  and leaves the store as it was.
\<close>

lemma code_errors_empty:
  "code_errors d = []
     \<longleftrightarrow> (\<exists>c. d ''code'' = Some c \<and> length (strip c) = 6 \<and> list_all isdigit_char (strip c))"
proof (cases "d ''code''")
  case None
  then show ?thesis by (simp add: code_errors_def char_field_def)
next
  case (Some c)
  show ?thesis
  proof (cases "char_field True (Some 6) (Some 6) ''code'' d = []")
    case True
    with Some have len: "strip c \<noteq> [] \<and> length (strip c) = 6" by (auto simp: char_field_empty)
    from True Some have "code_errors d = [] \<longleftrightarrow> isdigit (strip c)"
      by (simp add: code_errors_def validate_code_def)
    with len Some show ?thesis by (simp add: isdigit_def)
  next
    case False
    with Some have "\<not> (strip c \<noteq> [] \<and> length (strip c) = 6)" by (auto simp: char_field_empty)
    then have nl: "length (strip c) \<noteq> 6" by auto
    from False have "code_errors d \<noteq> []"
      by (simp add: code_errors_def split: list.splits)
    with nl Some show ?thesis by simp
  qed
qed

lemma VerifyOTPSerializer_rejects:
  "isl (VerifyOTPSerializer_is_valid ok_email d)
     \<longleftrightarrow> \<not> (\<exists>e c. d ''email'' = Some e \<and> strip e \<noteq> [] \<and> ok_email (strip e)
               \<and> d ''code'' = Some c \<and> length (strip c) = 6
               \<and> list_all isdigit_char (strip c))"
proof -
  have "isl (VerifyOTPSerializer_is_valid ok_email d)
      \<longleftrightarrow> \<not> (email_field ok_email True ''email'' d = [] \<and> code_errors d = [])"
    by (simp add: VerifyOTPSerializer_is_valid_def Let_def)
  also have "\<dots> \<longleftrightarrow> \<not> (\<exists>e c. d ''email'' = Some e \<and> strip e \<noteq> [] \<and> ok_email (strip e)
               \<and> d ''code'' = Some c \<and> length (strip c) = 6
               \<and> list_all isdigit_char (strip c))"
    by (auto simp: email_field_empty code_errors_empty split: option.splits)
  finally show ?thesis .
qed

lemma VerifyOTPView_post_invalid:
  assumes "isl (VerifyOTPSerializer_is_valid ok_email d)"
  shows "VerifyOTPView_post ok_email to_phone env d s = (unexpected_error, s)"
  using assms
  by (cases "VerifyOTPSerializer_is_valid ok_email d") (simp_all add: VerifyOTPView_post_def)

text \<open>The length is that of the trimmed code: a six-digit code typed with
  surrounding spaces is accepted and reaches the view as the six digits.\<close>

lemma padded_code_accepted:
  "VerifyOTPSerializer_is_valid contains_at padded_code
     = Inr (to_internal_value {''email'', ''code''} padded_code)"
  "to_internal_value {''email'', ''code''} padded_code ''code'' = Some ''042917''"
  by (simp_all add: VerifyOTPSerializer_is_valid_def code_errors_def validate_code_def
      isdigit_def isdigit_char_def email_field_def char_field_def contains_at_def
      padded_code_def to_internal_value_def strip_examples)

text \<open>
  Claim C8. An input identified by a phone number, with a six-digit code, is
  rejected: the serializer declares only \<open>email\<close> (required) and \<open>code\<close>, so
  the phone number never reaches \<open>validated_data\<close>, although the view reads
  \<open>validated_data.get('phone_number')\<close> and has a lookup by phone number. The
  view answers with its generic error.
\<close>

theorem verify_otp_phone_only_rejected:
  "phone_and_code ''phone_number'' = Some ''+15551234567''
   \<and> phone_and_code ''code'' = Some ''042917''
   \<and> isl (VerifyOTPSerializer_is_valid contains_at phone_and_code)
   \<and> status (fst (VerifyOTPView_post contains_at e164 (verify_request_at 30) phone_and_code
                  issued_store)) = 500"
  by (simp add: VerifyOTPView_post_def VerifyOTPSerializer_is_valid_def email_field_def
      phone_and_code_def unexpected_error_def)

section \<open>Requesting a code: the cooldown\<close>

lemma create_otp_frame:
  "cache (snd (create_otp e u s)) = cache s"
  "user_rows (snd (create_otp e u s)) = user_rows s"
  by (simp_all add: create_otp_def Let_def)

lemma RequestOTPView_post_hit:
  assumes "RequestOTPSerializer_is_valid ok_email d = Inr v"
    and "cval_truthy (cache_get (cache s) (now_cache_get env) (request_cache_key v))"
  shows "RequestOTPView_post ok_email to_phone env d s = (too_soon, s)"
  using assms by (simp add: RequestOTPView_post_def request_cache_key_def Let_def)

lemma RequestOTPView_post_miss:
  assumes v: "RequestOTPSerializer_is_valid ok_email d = Inr v"
    and miss: "\<not> cval_truthy (cache_get (cache s) (now_cache_get env) (request_cache_key v))"
  shows "(find_user to_phone (v ''email'') (v ''phone_number'') (user_rows s) = None
            \<longrightarrow> status (fst (RequestOTPView_post ok_email to_phone env d s)) = 404
              \<and> snd (RequestOTPView_post ok_email to_phone env d s) = s)
       \<and> (\<forall>u. find_user to_phone (v ''email'') (v ''phone_number'') (user_rows s) = Some u
              \<and> fst (create_otp (issuing env) u s) = None
            \<longrightarrow> status (fst (RequestOTPView_post ok_email to_phone env d s)) = 500
              \<and> snd (RequestOTPView_post ok_email to_phone env d s) = snd (create_otp (issuing env) u s))
       \<and> (\<forall>u. find_user to_phone (v ''email'') (v ''phone_number'') (user_rows s) = Some u
              \<and> fst (create_otp (issuing env) u s) \<noteq> None
            \<longrightarrow> status (fst (RequestOTPView_post ok_email to_phone env d s)) = 200
              \<and> snd (RequestOTPView_post ok_email to_phone env d s)
                  = (snd (create_otp (issuing env) u s))
                      \<lparr>cache := cache_set (cache (snd (create_otp (issuing env) u s)))
                          (now_cache_set env) (request_cache_key v) (CBool True) 60\<rparr>)"
proof -
  have none: "find_user to_phone (v ''email'') (v ''phone_number'') (user_rows s) = None
            \<longrightarrow> status (fst (RequestOTPView_post ok_email to_phone env d s)) = 404
              \<and> snd (RequestOTPView_post ok_email to_phone env d s) = s"
    using v miss by (simp add: RequestOTPView_post_def request_cache_key_def Let_def)
  have failed: "\<forall>u. find_user to_phone (v ''email'') (v ''phone_number'') (user_rows s) = Some u
              \<and> fst (create_otp (issuing env) u s) = None
            \<longrightarrow> status (fst (RequestOTPView_post ok_email to_phone env d s)) = 500
              \<and> snd (RequestOTPView_post ok_email to_phone env d s) = snd (create_otp (issuing env) u s)"
  proof (intro allI impI)
    fix u
    assume h: "find_user to_phone (v ''email'') (v ''phone_number'') (user_rows s) = Some u
        \<and> fst (create_otp (issuing env) u s) = None"
    obtain res s1 where c: "create_otp (issuing env) u s = (res, s1)"
      by (cases "create_otp (issuing env) u s")
    with h have "res = None" by simp
    with v miss h c show "status (fst (RequestOTPView_post ok_email to_phone env d s)) = 500
        \<and> snd (RequestOTPView_post ok_email to_phone env d s) = snd (create_otp (issuing env) u s)"
      by (simp add: RequestOTPView_post_def request_cache_key_def Let_def)
  qed
  have sent: "\<forall>u. find_user to_phone (v ''email'') (v ''phone_number'') (user_rows s) = Some u
              \<and> fst (create_otp (issuing env) u s) \<noteq> None
            \<longrightarrow> status (fst (RequestOTPView_post ok_email to_phone env d s)) = 200
              \<and> snd (RequestOTPView_post ok_email to_phone env d s)
                  = (snd (create_otp (issuing env) u s))
                      \<lparr>cache := cache_set (cache (snd (create_otp (issuing env) u s)))
                          (now_cache_set env) (request_cache_key v) (CBool True) 60\<rparr>"
  proof (intro allI impI)
    fix u
    assume h: "find_user to_phone (v ''email'') (v ''phone_number'') (user_rows s) = Some u
        \<and> fst (create_otp (issuing env) u s) \<noteq> None"
    obtain res s1 where c: "create_otp (issuing env) u s = (res, s1)"
      by (cases "create_otp (issuing env) u s")
    with h obtain otp where "res = Some otp" by auto
    with v miss h c show "status (fst (RequestOTPView_post ok_email to_phone env d s)) = 200
        \<and> snd (RequestOTPView_post ok_email to_phone env d s)
            = (snd (create_otp (issuing env) u s))
                \<lparr>cache := cache_set (cache (snd (create_otp (issuing env) u s)))
                    (now_cache_set env) (request_cache_key v) (CBool True) 60\<rparr>"
      by (simp add: RequestOTPView_post_def request_cache_key_def Let_def)
  qed
  from none failed sent show ?thesis by blast
qed

lemma RequestOTPView_post_status:
  assumes v: "RequestOTPSerializer_is_valid ok_email d = Inr v"
  shows "status (fst (RequestOTPView_post ok_email to_phone env d s)) = 429
      \<longleftrightarrow> cval_truthy (cache_get (cache s) (now_cache_get env) (request_cache_key v))"
proof (cases "cval_truthy (cache_get (cache s) (now_cache_get env) (request_cache_key v))")
  case True
  with v show ?thesis by (simp add: RequestOTPView_post_hit too_soon_def)
next
  case False
  note m = RequestOTPView_post_miss [OF v False]
  show ?thesis
  proof (cases "find_user to_phone (v ''email'') (v ''phone_number'') (user_rows s)")
    case None
    with m False show ?thesis by simp
  next
    case (Some u)
    with m False show ?thesis by (cases "fst (create_otp (issuing env) u s) = None") simp_all
  qed
qed


lemma request_cache_kept:
  assumes v: "RequestOTPSerializer_is_valid ok_email d = Inr v"
    and "status (fst (RequestOTPView_post ok_email to_phone env d s)) \<noteq> 200"
  shows "cache (snd (RequestOTPView_post ok_email to_phone env d s)) = cache s"
proof (cases "cval_truthy (cache_get (cache s) (now_cache_get env) (request_cache_key v))")
  case True
  with v show ?thesis by (simp add: RequestOTPView_post_hit)
next
  case False
  note m = RequestOTPView_post_miss [OF v False]
  show ?thesis
  proof (cases "find_user to_phone (v ''email'') (v ''phone_number'') (user_rows s)")
    case None
    with m show ?thesis by simp
  next
    case (Some u)
    with m assms(2) show ?thesis
      by (cases "fst (create_otp (issuing env) u s) = None") (simp_all add: create_otp_frame)
  qed
qed

lemma request_cache_written:
  assumes v: "RequestOTPSerializer_is_valid ok_email d = Inr v"
    and ok: "status (fst (RequestOTPView_post ok_email to_phone env d s)) = 200"
  shows "cache (snd (RequestOTPView_post ok_email to_phone env d s))
           = cache_set (cache s) (now_cache_set env) (request_cache_key v) (CBool True) 60"
proof -
  have miss: "\<not> cval_truthy (cache_get (cache s) (now_cache_get env) (request_cache_key v))"
    using RequestOTPView_post_hit [OF v] ok by (auto simp: too_soon_def)
  note m = RequestOTPView_post_miss [OF v miss]
  from m ok obtain u where u: "find_user to_phone (v ''email'') (v ''phone_number'') (user_rows s) = Some u"
    by (cases "find_user to_phone (v ''email'') (v ''phone_number'') (user_rows s)") auto
  from m ok u have c: "fst (create_otp (issuing env) u s) \<noteq> None"
    by (cases "fst (create_otp (issuing env) u s) = None") auto
  from m u c have "snd (RequestOTPView_post ok_email to_phone env d s)
      = (snd (create_otp (issuing env) u s))
          \<lparr>cache := cache_set (cache (snd (create_otp (issuing env) u s)))
              (now_cache_set env) (request_cache_key v) (CBool True) 60\<rparr>"
    by blast
  then show ?thesis by (simp add: create_otp_frame)
qed

lemma cache_get_after_set:
  "cache_get (cache_set c t k v ttl) t2 k = (if t2 < t + ttl then Some v else None)"
  by (simp add: cache_get_def cache_set_def)

text \<open>
  Claim C5. For a request that passes validation: while a cooldown entry for
  its identifier is visible, the view answers 429 with the wait hint
  \<open>60 seconds\<close> and leaves the store as it was; a response other than 200
  leaves the cache unchanged, so a failed issuance or delivery starts no
  cooldown; a 200 response means \<open>create_otp\<close> returned a code and the cache
  then holds the cooldown entry, expiring 60 seconds after it was set; a
  repeated request before that instant is answered 429 with nothing changed,
  and from that instant on the request is no longer rate limited.
\<close>

theorem request_otp_cooldown:
  assumes v: "RequestOTPSerializer_is_valid ok_email d = Inr v"
  shows "(cval_truthy (cache_get (cache s) (now_cache_get env) (request_cache_key v))
            \<longrightarrow> RequestOTPView_post ok_email to_phone env d s = (too_soon, s))
       \<and> status too_soon = 429 \<and> (''wait_time'', JStr ''60 seconds'') \<in> set (body too_soon)
       \<and> (status (fst (RequestOTPView_post ok_email to_phone env d s)) \<noteq> 200
            \<longrightarrow> cache (snd (RequestOTPView_post ok_email to_phone env d s)) = cache s)
       \<and> (status (fst (RequestOTPView_post ok_email to_phone env d s)) = 200
            \<longrightarrow> (\<exists>u. find_user to_phone (v ''email'') (v ''phone_number'') (user_rows s) = Some u
                     \<and> fst (create_otp (issuing env) u s) \<noteq> None)
              \<and> cache (snd (RequestOTPView_post ok_email to_phone env d s))
                  = cache_set (cache s) (now_cache_set env) (request_cache_key v) (CBool True) 60
              \<and> (\<forall>env2. now_cache_get env2 < now_cache_set env + 60
                    \<longrightarrow> RequestOTPView_post ok_email to_phone env2 d (snd (RequestOTPView_post ok_email to_phone env d s))
                          = (too_soon, snd (RequestOTPView_post ok_email to_phone env d s)))
              \<and> (\<forall>env2. now_cache_set env + 60 \<le> now_cache_get env2
                    \<longrightarrow> status (fst (RequestOTPView_post ok_email to_phone env2 d
                                       (snd (RequestOTPView_post ok_email to_phone env d s)))) \<noteq> 429))"
proof -
  let ?P = "RequestOTPView_post ok_email to_phone env d s"
  let ?k = "request_cache_key v"
  let ?hit = "cval_truthy (cache_get (cache s) (now_cache_get env) ?k)"
  have hit: "?hit \<longrightarrow> ?P = (too_soon, s)"
    using RequestOTPView_post_hit [OF v] by blast
  have hint: "status too_soon = 429 \<and> (''wait_time'', JStr ''60 seconds'') \<in> set (body too_soon)"
    by (simp add: too_soon_def)
  have sent: "status (fst ?P) = 200 \<Longrightarrow>
      (\<exists>u. find_user to_phone (v ''email'') (v ''phone_number'') (user_rows s) = Some u
          \<and> fst (create_otp (issuing env) u s) \<noteq> None)
      \<and> cache (snd ?P) = cache_set (cache s) (now_cache_set env) ?k (CBool True) 60"
  proof -
    assume ok: "status (fst ?P) = 200"
    then have miss: "\<not> ?hit" using hit by (auto simp: too_soon_def)
    note m = RequestOTPView_post_miss [OF v miss]
    from m ok obtain u where u: "find_user to_phone (v ''email'') (v ''phone_number'') (user_rows s) = Some u"
      by (cases "find_user to_phone (v ''email'') (v ''phone_number'') (user_rows s)") auto
    from m ok u have c: "fst (create_otp (issuing env) u s) \<noteq> None"
      by (cases "fst (create_otp (issuing env) u s) = None") auto
    from m u c have "snd ?P = (snd (create_otp (issuing env) u s))
        \<lparr>cache := cache_set (cache (snd (create_otp (issuing env) u s)))
            (now_cache_set env) ?k (CBool True) 60\<rparr>"
      by blast
    then have "cache (snd ?P) = cache_set (cache s) (now_cache_set env) ?k (CBool True) 60"
      by (simp add: create_otp_frame)
    with u c show ?thesis by blast
  qed
  have unsent: "status (fst ?P) \<noteq> 200 \<longrightarrow> cache (snd ?P) = cache s"
  proof (cases ?hit)
    case True
    with hit show ?thesis by simp
  next
    case False
    note m = RequestOTPView_post_miss [OF v False]
    show ?thesis
    proof (cases "find_user to_phone (v ''email'') (v ''phone_number'') (user_rows s)")
      case None
      with m show ?thesis by simp
    next
      case (Some u)
      with m show ?thesis
        by (cases "fst (create_otp (issuing env) u s) = None") (simp_all add: create_otp_frame)
    qed
  qed
  have within: "status (fst ?P) = 200 \<Longrightarrow> now_cache_get env2 < now_cache_set env + 60
      \<Longrightarrow> RequestOTPView_post ok_email to_phone env2 d (snd ?P) = (too_soon, snd ?P)" for env2
  proof -
    assume "status (fst ?P) = 200" and t: "now_cache_get env2 < now_cache_set env + 60"
    then have "cache (snd ?P) = cache_set (cache s) (now_cache_set env) ?k (CBool True) 60"
      using sent by blast
    with t have "cval_truthy (cache_get (cache (snd ?P)) (now_cache_get env2) ?k)"
      by (simp add: cache_get_after_set cval_truthy_def)
    with v show ?thesis by (rule RequestOTPView_post_hit)
  qed
  have after: "status (fst ?P) = 200 \<Longrightarrow> now_cache_set env + 60 \<le> now_cache_get env2
      \<Longrightarrow> status (fst (RequestOTPView_post ok_email to_phone env2 d (snd ?P))) \<noteq> 429" for env2
  proof -
    assume "status (fst ?P) = 200" and t: "now_cache_set env + 60 \<le> now_cache_get env2"
    then have "cache (snd ?P) = cache_set (cache s) (now_cache_set env) ?k (CBool True) 60"
      using sent by blast
    with t have "\<not> cval_truthy (cache_get (cache (snd ?P)) (now_cache_get env2) ?k)"
      by (simp add: cache_get_after_set cval_truthy_def)
    then show ?thesis using RequestOTPView_post_status [OF v] by blast
  qed
  from hit hint sent unsent within after show ?thesis by blast
qed

theorem request_otp_cooldown_witness:
  "RequestOTPSerializer_is_valid contains_at email_only
     = Inr (to_internal_value {''email'', ''phone_number''} email_only)
   \<and> status (fst (RequestOTPView_post contains_at e164 (request_at 0 gateway_up) email_only empty_store))
       = 200
   \<and> status (fst (RequestOTPView_post contains_at e164 (request_at 59 gateway_up) email_only
        (snd (RequestOTPView_post contains_at e164 (request_at 0 gateway_up) email_only empty_store))))
       = 429
   \<and> status (fst (RequestOTPView_post contains_at e164 (request_at 60 gateway_up) email_only
        (snd (RequestOTPView_post contains_at e164 (request_at 0 gateway_up) email_only empty_store))))
       \<noteq> 429
   \<and> status (fst (RequestOTPView_post contains_at e164 (request_at 0 gateway_down) email_only empty_store))
       = 500
   \<and> cache (snd (RequestOTPView_post contains_at e164 (request_at 0 gateway_down) email_only empty_store))
       = cache empty_store"
proof -
  let ?P = "RequestOTPView_post contains_at e164 (request_at 0 gateway_up) email_only empty_store"
  let ?F = "RequestOTPView_post contains_at e164 (request_at 0 gateway_down) email_only empty_store"
  note up = request_otp_cooldown [OF email_only_valid, of empty_store "request_at 0 gateway_up"]
  note down = request_otp_cooldown [OF email_only_valid, of empty_store "request_at 0 gateway_down"]
  have ok: "status (fst ?P) = 200" by (simp add: first_request)
  have t59: "now_cache_get (request_at 59 gateway_up) < now_cache_set (request_at 0 gateway_up) + 60"
    and t60: "now_cache_set (request_at 0 gateway_up) + 60 \<le> now_cache_get (request_at 60 gateway_up)"
    by (simp_all add: request_at_def)
  from up ok t59
  have "RequestOTPView_post contains_at e164 (request_at 59 gateway_up) email_only (snd ?P)
      = (too_soon, snd ?P)" by blast
  then have within: "status (fst (RequestOTPView_post contains_at e164 (request_at 59 gateway_up)
      email_only (snd ?P))) = 429" by (simp add: too_soon_def)
  from up ok t60
  have after: "status (fst (RequestOTPView_post contains_at e164 (request_at 60 gateway_up)
      email_only (snd ?P))) \<noteq> 429" by blast
  have failed: "status (fst ?F) = 500"
    by (simp add: request_eval email_only_def empty_store_def alice_def)
  with down have "cache (snd ?F) = cache empty_store" by simp
  with email_only_valid ok within after failed show ?thesis by simp
qed


section \<open>Verifying through the view: the attempt cap\<close>

text \<open>
  \<open>RequestOTPView.post\<close> writes only the cooldown key: whatever it answers,
  every attempt counter is as it was.
\<close>

lemma request_key_not_attempt_key: "''otp_request_'' @ a \<noteq> ''otp_attempts_'' @ b"
  by simp

lemma RequestOTPView_post_keeps_attempts:
  "cache (snd (RequestOTPView_post ok_email to_phone env d s)) (''otp_attempts_'' @ x)
     = cache s (''otp_attempts_'' @ x)"
proof (cases "RequestOTPSerializer_is_valid ok_email d")
  case (Inl e)
  then show ?thesis by (simp add: RequestOTPView_post_def)
next
  case (Inr v)
  show ?thesis
  proof (cases "status (fst (RequestOTPView_post ok_email to_phone env d s)) = 200")
    case True
    with request_cache_written [OF Inr True] show ?thesis
      by (simp add: cache_set_def request_cache_key_def)
  next
    case False
    with request_cache_kept [OF Inr False] show ?thesis by simp
  qed
qed

lemma verify_otp_frame:
  "cache (snd (verify_otp e u c s)) = cache s"
  "user_rows (snd (verify_otp e u c s)) = user_rows s"
  by (simp_all add: verify_otp_def verify_commit_def split: option.splits)

lemma VerifyOTPView_post_refused:
  assumes "VerifyOTPSerializer_is_valid ok_email d = Inr v"
    and "max_attempts \<le> attempts_at s (now_attempts_get env) (attempt_cache_key v)"
  shows "VerifyOTPView_post ok_email to_phone env d s = (too_many_attempts, s)"
  using assms by (simp add: VerifyOTPView_post_def attempt_cache_key_def attempts_at_def Let_def)

lemma VerifyOTPView_post_400:
  assumes v: "VerifyOTPSerializer_is_valid ok_email d = Inr v"
    and bad: "status (fst (VerifyOTPView_post ok_email to_phone env d s)) = 400"
  shows "cache (snd (VerifyOTPView_post ok_email to_phone env d s))
           = cache_set (cache s) (now_attempts_set env) (attempt_cache_key v)
               (CInt (attempts_at s (now_attempts_get env) (attempt_cache_key v) + 1)) 300"
proof -
  let ?n = "attempts_at s (now_attempts_get env) (attempt_cache_key v)"
  have open_: "\<not> max_attempts \<le> ?n"
    using VerifyOTPView_post_refused [OF v] bad by (auto simp: too_many_attempts_def)
  show ?thesis
  proof (cases "find_user to_phone (v ''email'') (v ''phone_number'') (user_rows s)")
    case None
    with v open_ bad show ?thesis
      by (simp add: VerifyOTPView_post_def attempt_cache_key_def attempts_at_def Let_def)
  next
    case (Some u)
    obtain b s1 where r: "verify_otp (verifying env) u (py_str (v ''code'')) s = (b, s1)"
      by (cases "verify_otp (verifying env) u (py_str (v ''code'')) s")
    then have c: "cache s1 = cache s"
      using verify_otp_frame(1) [of "verifying env" u "py_str (v ''code'')" s] by simp
    from v open_ bad Some r c show ?thesis
      by (cases b) (simp_all add: VerifyOTPView_post_def attempt_cache_key_def attempts_at_def Let_def)
  qed
qed

text \<open>
  Claim C4, as the code has it. For a request that passes validation: when the
  visible attempt count of its identifier is at least 3, the view answers 429
  and leaves the store as it was, whatever the OTP table holds; and once a
  third failed attempt has been recorded, every verification request for the
  same identifier made before the counter entry expires, 300 seconds after
  that failure was recorded, is answered so.
\<close>

theorem verify_otp_attempt_cap:
  assumes v: "VerifyOTPSerializer_is_valid ok_email d = Inr v"
  shows "(max_attempts \<le> attempts_at s (now_attempts_get env) (attempt_cache_key v)
            \<longrightarrow> (\<forall>rows. VerifyOTPView_post ok_email to_phone env d (s\<lparr>otp_rows := rows\<rparr>)
                          = (too_many_attempts, s\<lparr>otp_rows := rows\<rparr>)))
       \<and> status too_many_attempts = 429 \<and> max_attempts = 3
       \<and> (status (fst (VerifyOTPView_post ok_email to_phone env d s)) = 400
            \<and> attempts_at s (now_attempts_get env) (attempt_cache_key v) = 2
          \<longrightarrow> (\<forall>env2 d2 v2.
                 VerifyOTPSerializer_is_valid ok_email d2 = Inr v2
                 \<and> attempt_cache_key v2 = attempt_cache_key v
                 \<and> now_attempts_get env2 < now_attempts_set env + 300
               \<longrightarrow> VerifyOTPView_post ok_email to_phone env2 d2 (snd (VerifyOTPView_post ok_email to_phone env d s))
                     = (too_many_attempts, snd (VerifyOTPView_post ok_email to_phone env d s))))"
proof -
  let ?P = "VerifyOTPView_post ok_email to_phone env d s"
  let ?k = "attempt_cache_key v"
  have refused: "max_attempts \<le> attempts_at s (now_attempts_get env) ?k
      \<longrightarrow> (\<forall>rows. VerifyOTPView_post ok_email to_phone env d (s\<lparr>otp_rows := rows\<rparr>)
                    = (too_many_attempts, s\<lparr>otp_rows := rows\<rparr>))"
  proof (intro impI allI)
    fix rows
    assume "max_attempts \<le> attempts_at s (now_attempts_get env) ?k"
    then have "max_attempts \<le> attempts_at (s\<lparr>otp_rows := rows\<rparr>) (now_attempts_get env) ?k"
      by (simp add: attempts_at_def)
    with v show "VerifyOTPView_post ok_email to_phone env d (s\<lparr>otp_rows := rows\<rparr>)
        = (too_many_attempts, s\<lparr>otp_rows := rows\<rparr>)"
      by (rule VerifyOTPView_post_refused)
  qed
  have codes: "status too_many_attempts = 429 \<and> max_attempts = 3"
    by (simp add: too_many_attempts_def max_attempts_def)
  have locked: "VerifyOTPView_post ok_email to_phone env2 d2 (snd ?P) = (too_many_attempts, snd ?P)"
    if bad: "status (fst ?P) = 400"
      and two: "attempts_at s (now_attempts_get env) ?k = 2"
      and v2: "VerifyOTPSerializer_is_valid ok_email d2 = Inr v2"
      and key: "attempt_cache_key v2 = ?k"
      and t: "now_attempts_get env2 < now_attempts_set env + 300"
    for env2 d2 v2
  proof -
    from VerifyOTPView_post_400 [OF v bad] two
    have "cache (snd ?P) = cache_set (cache s) (now_attempts_set env) ?k (CInt 3) 300" by simp
    with t key have "attempts_at (snd ?P) (now_attempts_get env2) (attempt_cache_key v2) = 3"
      by (simp add: attempts_at_def cache_get_after_set cval_int_def)
    then have "max_attempts \<le> attempts_at (snd ?P) (now_attempts_get env2) (attempt_cache_key v2)"
      by (simp add: max_attempts_def)
    with v2 show ?thesis by (rule VerifyOTPView_post_refused)
  qed
  from refused codes locked show ?thesis by blast
qed

theorem verify_otp_attempt_cap_witness:
  "VerifyOTPSerializer_is_valid contains_at (verify_data ''000000'')
     = Inr (to_internal_value {''email'', ''code''} (verify_data ''000000''))
   \<and> attempts_at (wrong_guess 20 (wrong_guess 10 issued_store)) 30
        ''otp_attempts_alice@example.com'' = 2
   \<and> status (fst (VerifyOTPView_post contains_at e164 (verify_request_at 30) (verify_data ''000000'')
                  (wrong_guess 20 (wrong_guess 10 issued_store)))) = 400
   \<and> VerifyOTPView_post contains_at e164 (verify_request_at 110) (verify_data ''042917'') locked_store
       = (too_many_attempts, locked_store)"
proof -
  let ?s = "wrong_guess 20 (wrong_guess 10 issued_store)"
  let ?P = "VerifyOTPView_post contains_at e164 (verify_request_at 30) (verify_data ''000000'') ?s"
  note cap = verify_otp_attempt_cap [OF verify_data_valid(1), of ?s "verify_request_at 30"]
  have two: "attempts_at ?s (now_attempts_get (verify_request_at 30))
      (attempt_cache_key (to_internal_value {''email'', ''code''} (verify_data ''000000''))) = 2"
    by (simp add: verify_data_key two_wrong_eq attempts_at_def cache_get_def cval_int_def
        verify_request_at_def)
  have bad: "status (fst ?P) = 400"
    unfolding two_wrong_eq by (simp add: issued_store_rows verify_eval alice_def)
  have t: "now_attempts_get (verify_request_at 110) < now_attempts_set (verify_request_at 30) + 300"
    by (simp add: verify_request_at_def)
  have key: "attempt_cache_key (to_internal_value {''email'', ''code''} (verify_data ''042917''))
      = attempt_cache_key (to_internal_value {''email'', ''code''} (verify_data ''000000''))"
    by (simp add: verify_data_key)
  from cap bad two verify_data_valid(2) key t
  have "VerifyOTPView_post contains_at e164 (verify_request_at 110) (verify_data ''042917'') (snd ?P)
      = (too_many_attempts, snd ?P)" by blast
  then have "VerifyOTPView_post contains_at e164 (verify_request_at 110) (verify_data ''042917'')
      locked_store = (too_many_attempts, locked_store)"
    by (simp add: locked_store_def wrong_guess_def)
  with verify_data_valid(1) two bad show ?thesis
    by (simp add: verify_data_key verify_request_at_def)
qed


text \<open>
  Claim C4 as stated fails. After three wrong guesses, recorded at seconds 10,
  20 and 30, the refusal ends at second 330 without any new code being issued:
  the old code is then verified. And a new code issued at second 100 does not
  end the refusal: the view still answers 429 at second 110, although
  \<open>verify_otp\<close> would accept the new code.
\<close>

theorem verify_otp_lock_counterexample:
  "attempts_at locked_store 30 ''otp_attempts_alice@example.com'' = 3
   \<and> status (fst (VerifyOTPView_post contains_at e164 (verify_request_at 330)
                  (verify_data ''042917'') locked_store)) = 200
   \<and> status (fst (RequestOTPView_post contains_at e164 (request_at 100 gateway_up) email_only
                  locked_store)) = 200
   \<and> fst (verify_otp (verify_at 110) alice ''042917'' reissued_store)
   \<and> status (fst (VerifyOTPView_post contains_at e164 (verify_request_at 110)
                  (verify_data ''042917'') reissued_store)) = 429"
proof -
  have a: "attempts_at locked_store 30 ''otp_attempts_alice@example.com'' = 3"
    by (simp add: locked_store_eq attempts_at_def cache_get_def cval_int_def)
  have b: "status (fst (VerifyOTPView_post contains_at e164 (verify_request_at 330)
      (verify_data ''042917'') locked_store)) = 200"
    by (simp add: locked_store_eq issued_store_rows verify_eval alice_def)
  have c: "fst (verify_otp (verify_at 110) alice ''042917'' reissued_store)"
    by (simp add: reissued_store_eq verify_otp_def verify_lookup_def matching_def verify_at_def
        alice_def)
  have d: "status (fst (VerifyOTPView_post contains_at e164 (verify_request_at 110)
      (verify_data ''042917'') reissued_store)) = 429"
    by (simp add: reissued_store_eq verify_eval alice_def)
  from a b reissue_response c d show ?thesis by simp
qed



section \<open>Two verifications of one code\<close>

text \<open>
  Two steps of one caller from the start are \<open>verify_otp\<close> with no failing
  statement.
\<close>

lemma verify_otp_steps:
  assumes "\<not> lookup_raises e" "\<not> save_raises e"
  shows "verify_step (now_lookup e) u c (verify_step (now_lookup e) u c (Start, s))
           = (Done (fst (verify_otp e u c s)), snd (verify_otp e u c s))"
  using assms by (simp add: verify_step_def verify_otp_def split: option.splits)

lemma verify_lookup_only:
  assumes "r \<in> set (otp_rows s)" "matching t (user_pk u) c r"
    and "\<forall>x \<in> set (otp_rows s). matching t (user_pk u) c x \<longrightarrow> x = r"
  shows "verify_lookup t u c s = Some r"
proof (cases "verify_lookup t u c s")
  case None
  with assms(1,2) show ?thesis by (simp add: verify_lookup_None)
next
  case (Some x)
  from verify_lookup_Some [OF Some] assms(3) have "x = r" by blast
  with Some show ?thesis by simp
qed

lemma verify_lookup_consumed:
  assumes "\<forall>x \<in> set (otp_rows s). matching t (user_pk u) c x \<longrightarrow> x = r"
  shows "verify_lookup t u c (verify_commit r s) = None"
proof -
  have "\<not> matching t (user_pk u) c x" if x: "x \<in> set (otp_rows (verify_commit r s))" for x
  proof
    assume m: "matching t (user_pk u) c x"
    from x have "x \<in> set (save_row (r\<lparr>is_used := True\<rparr>) (otp_rows s))"
      by (simp add: verify_commit_def)
    then have "x = r\<lparr>is_used := True\<rparr> \<or> (x \<in> set (otp_rows s) \<and> otp_pk x \<noteq> otp_pk r)"
      using save_row_mem [of x "r\<lparr>is_used := True\<rparr>" "otp_rows s"] by simp
    then show False
    proof
      assume "x = r\<lparr>is_used := True\<rparr>"
      with m show False by (simp add: matching_def)
    next
      assume old: "x \<in> set (otp_rows s) \<and> otp_pk x \<noteq> otp_pk r"
      with m assms have "x = r" by blast
      with old show False by simp
    qed
  qed
  then show ?thesis by (simp add: verify_lookup_None)
qed

text \<open>
  Claim C6, as the code has it. Let one row be the only one that matches the
  user and the code at either caller's clock reading. When the two callers run
  one after the other, the first observes success and the second the failure;
  exactly one succeeds. When both SELECTs run before the second UPDATE, both
  callers observe success: the lookup and the write are two statements.
\<close>

theorem concurrent_verify_outcomes:
  assumes row: "r \<in> set (otp_rows s)"
    and valid: "matching tA (user_pk u) c r" "matching tB (user_pk u) c r"
    and only: "\<forall>x \<in> set (otp_rows s).
                 matching tA (user_pk u) c x \<or> matching tB (user_pk u) c x \<longrightarrow> x = r"
  shows "run tA tB u c [True, True, False, False] (Start, Start, s)
           = (Done True, Done False, verify_commit r s)
       \<and> run tA tB u c [False, False, True, True] (Start, Start, s)
           = (Done False, Done True, verify_commit r s)
       \<and> successes (run tA tB u c [True, True, False, False] (Start, Start, s)) = 1
       \<and> successes (run tA tB u c [False, False, True, True] (Start, Start, s)) = 1
       \<and> successes (run tA tB u c [True, False, True, False] (Start, Start, s)) = 2
       \<and> successes (run tA tB u c [True, False, False, True] (Start, Start, s)) = 2
       \<and> successes (run tA tB u c [False, True, True, False] (Start, Start, s)) = 2
       \<and> successes (run tA tB u c [False, True, False, True] (Start, Start, s)) = 2"
proof -
  have onlyA: "\<forall>x \<in> set (otp_rows s). matching tA (user_pk u) c x \<longrightarrow> x = r"
    and onlyB: "\<forall>x \<in> set (otp_rows s). matching tB (user_pk u) c x \<longrightarrow> x = r"
    using only by blast+
  have a: "verify_lookup tA u c s = Some r"
    using row valid(1) onlyA by (rule verify_lookup_only)
  have b: "verify_lookup tB u c s = Some r"
    using row valid(2) onlyB by (rule verify_lookup_only)
  have a': "verify_lookup tA u c (verify_commit r s) = None"
    using onlyA by (rule verify_lookup_consumed)
  have b': "verify_lookup tB u c (verify_commit r s) = None"
    using onlyB by (rule verify_lookup_consumed)
  show ?thesis
    by (simp add: verify_step_def successes_def a b a' b')
qed

theorem concurrent_verify_outcomes_witness:
  "hd (otp_rows issued_store) \<in> set (otp_rows issued_store)
   \<and> matching 30 (user_pk alice) ''042917'' (hd (otp_rows issued_store))
   \<and> matching 31 (user_pk alice) ''042917'' (hd (otp_rows issued_store))
   \<and> successes (run 30 31 alice ''042917'' [True, True, False, False] (Start, Start, issued_store)) = 1
   \<and> successes (run 30 31 alice ''042917'' [False, True, True, False] (Start, Start, issued_store)) = 2"
proof -
  have row: "hd (otp_rows issued_store) \<in> set (otp_rows issued_store)"
    by (simp add: issued_store_rows)
  have a: "matching 30 (user_pk alice) ''042917'' (hd (otp_rows issued_store))"
    and b: "matching 31 (user_pk alice) ''042917'' (hd (otp_rows issued_store))"
    by (simp_all add: issued_store_rows matching_def alice_def)
  have only: "\<forall>x \<in> set (otp_rows issued_store).
      matching 30 (user_pk alice) ''042917'' x \<or> matching 31 (user_pk alice) ''042917'' x
      \<longrightarrow> x = hd (otp_rows issued_store)"
    by (simp add: issued_store_rows)
  from concurrent_verify_outcomes [OF row a b only] row a b show ?thesis by blast
qed


text \<open>
  Claim C6 as stated fails: with both lookups before the writes, both callers
  verifying Alice's code return \<open>True\<close>.
\<close>

theorem concurrent_verify_both_succeed:
  "run 30 31 alice ''042917'' [True, False, True, False] (Start, Start, issued_store)
     = (Done True, Done True,
        issued_store\<lparr>otp_rows := [\<lparr>otp_pk = 1, otp_user = 1, code = ''042917'', is_used = True,
                                    created_at = 0, expires_at = 600\<rparr>]\<rparr>)"
  by (simp add: verify_step_def verify_lookup_def verify_commit_def save_row_def matching_def
      issued_store_rows alice_def)


end
